theory Spec2Isabelle
  imports Main
begin

section \<open>Values shared by the utilities\<close>

text \<open>
  A value thrown by the REST client or by the utilities themselves. The code reads one
  field of it, \<^verbatim>\<open>error?.status\<close>; a thrown value without that field has status
  \<open>None\<close>. \<^verbatim>\<open>new Error(msg)\<close> is \<open>JsError None msg\<close>.
\<close>

datatype js_error = JsError (err_status: "int option") (err_message: string)

text \<open>
  The requests sent through \<^verbatim>\<open>ctx.github.rest\<close>, with the arguments that vary
  between the calls of one invocation. The repository coordinates and the query
  parameters that are fixed for a whole invocation (\<^verbatim>\<open>state\<close>, \<^verbatim>\<open>sort\<close>,
  \<^verbatim>\<open>direction\<close>, \<^verbatim>\<open>ref\<close>, \<^verbatim>\<open>environment\<close>) belong to the endpoint function
  that the model takes as a parameter.
\<close>

datatype rest_call =
    ReposListDeployments int int  \<comment> \<open>\<^verbatim>\<open>per_page\<close>, \<^verbatim>\<open>page\<close>\<close>
  | ReposListBranches int int  \<comment> \<open>\<^verbatim>\<open>per_page\<close>, \<^verbatim>\<open>page\<close>\<close>
  | PullsList int "int option"  \<comment> \<open>\<^verbatim>\<open>per_page\<close>, \<^verbatim>\<open>page\<close> (absent in the single-page search)\<close>
  | PullsGet int  \<comment> \<open>\<^verbatim>\<open>pull_number\<close>\<close>
  | IssuesListComments int int  \<comment> \<open>\<^verbatim>\<open>issue_number\<close>, \<^verbatim>\<open>per_page\<close>\<close>
  | IssuesRemoveLabel int string  \<comment> \<open>\<^verbatim>\<open>issue_number\<close>, \<^verbatim>\<open>name\<close>\<close>
  | ReposGetBranch string  \<comment> \<open>\<^verbatim>\<open>branch\<close>\<close>
  | ReposGetBranchProtection string  \<comment> \<open>\<^verbatim>\<open>branch\<close>\<close>

text \<open>
  The messages passed to \<^verbatim>\<open>ctx.core.info\<close>, one constructor for each template string
  of the source, carrying the values interpolated into it.
\<close>

datatype info_msg =
    SearchingForPRsWithLabels "string list"
      \<comment> \<open>\<^verbatim>\<open>Searching for PRs with labels: ${labels.join(', ')}\<close>\<close>
  | FoundPRsMatching nat
      \<comment> \<open>\<^verbatim>\<open>Found ${n} PRs matching label criteria\<close>\<close>
  | GettingPullRequest int
      \<comment> \<open>\<^verbatim>\<open>Getting pull request #${pullNumber}\<close>\<close>
  | NoLabelsToRemove
      \<comment> \<open>\<^verbatim>\<open>No labels to remove\<close>\<close>
  | RemovingLabelsFromPR int "string list"
      \<comment> \<open>\<^verbatim>\<open>Removing labels from PR #${pullNumber}: ${labels.join(', ')}\<close>\<close>
  | LabelNotPresentOnPR string int
      \<comment> \<open>\<^verbatim>\<open>Label '${label}' was not present on PR #${pullNumber}\<close>\<close>

text \<open>
  What one invocation of a utility did and produced: the REST requests in the order they
  were sent, the informational messages in the order they were logged, and the result.
  A result \<open>Inl e\<close> is the rejection of the promise with \<open>e\<close>.
\<close>

record 'r run =
  calls :: "rest_call list"
  infos :: "info_msg list"
  result :: 'r

text \<open>
  \<^verbatim>\<open>xs.slice(0, end)\<close> for an integral \<^verbatim>\<open>end\<close>: a negative end counts from the end
  of the array.
\<close>

definition slice0 :: "'a list \<Rightarrow> int \<Rightarrow> 'a list" where
  "slice0 xs stop =
     (if stop < 0 then take (nat (int (length xs) + stop)) xs else take (nat stop) xs)"

text \<open>A parameter with a default value: \<^verbatim>\<open>limit = 100\<close> is \<open>with_default 100 limit\<close>.\<close>

definition with_default :: "'a \<Rightarrow> 'a option \<Rightarrow> 'a" where
  "with_default d v = (case v of None \<Rightarrow> d | Some x \<Rightarrow> x)"

section \<open>Deployments\<close>

text \<open>
  The \<^verbatim>\<open>while\<close> loop of \<^verbatim>\<open>listDeployments\<close>, entered with the deployments collected so
  far and the page to request next. It returns the requests it sent and either the error
  thrown by the fetch or the final array. Every round that continues has added at least
  one item, so the loop ends. \<open>api perPage page\<close> is the answer of
  \<^verbatim>\<open>repos.listDeployments\<close> to the request for that page: \<open>Inr data\<close>, or \<open>Inl e\<close>
  when it rejects. Limits and page sizes are integers; the code does not check its
  \<^verbatim>\<open>limit\<close>, and a fractional one is outside this model.
\<close>

function listDeployments_loop ::
  "(int \<Rightarrow> int \<Rightarrow> js_error + 'd list) \<Rightarrow> int \<Rightarrow> int \<Rightarrow> 'd list \<Rightarrow> int
    \<Rightarrow> rest_call list \<times> (js_error + 'd list)" where
  "listDeployments_loop api limit perPage deployments page =
     (if int (length deployments) < limit then
        (case api perPage page of
           Inl e \<Rightarrow> ([ReposListDeployments perPage page], Inl e)
         | Inr data \<Rightarrow>
             if length data = 0 then ([ReposListDeployments perPage page], Inr deployments)
             else if int (length data) < perPage
               then ([ReposListDeployments perPage page], Inr (deployments @ data))
             else
               (case listDeployments_loop api limit perPage (deployments @ data) (page + 1) of
                  (cs, r) \<Rightarrow> (ReposListDeployments perPage page # cs, r)))
      else ([], Inr deployments))"
  by pat_completeness auto
termination
  by (relation "measure (\<lambda>(api, limit, perPage, deployments, page).
        nat (limit - int (length deployments)))") auto

declare listDeployments_loop.simps [simp del]

definition listDeployments ::
  "(int \<Rightarrow> int \<Rightarrow> js_error + 'd list) \<Rightarrow> int option \<Rightarrow> (js_error + 'd list) run" where
  "listDeployments api limit_opt =
     (let limit = with_default 100 limit_opt;
          perPage = min limit 100
      in case listDeployments_loop api limit perPage [] 1 of
           (cs, Inl e) \<Rightarrow> \<lparr>calls = cs, infos = [], result = Inl e\<rparr>
         | (cs, Inr deployments) \<Rightarrow>
             \<lparr>calls = cs, infos = [], result = Inr (slice0 deployments limit)\<rparr>)"

section \<open>Branches\<close>

record branch =
  branch_name :: string
  branch_protected :: bool

text \<open>
  \<^verbatim>\<open>checkBranchExists\<close>: the \<^verbatim>\<open>try\<close> block returns \<^verbatim>\<open>true\<close>; the \<^verbatim>\<open>catch\<close> block
  returns \<^verbatim>\<open>false\<close> for status 404 and throws the error again otherwise.
\<close>

definition checkBranchExists ::
  "(string \<Rightarrow> js_error + 'b) \<Rightarrow> string \<Rightarrow> (js_error + bool) run" where
  "checkBranchExists api br =
     \<lparr>calls = [ReposGetBranch br], infos = [],
      result = (case api br of
                  Inr data \<Rightarrow> Inr True
                | Inl e \<Rightarrow> if err_status e = Some 404 then Inr False else Inl e)\<rparr>"

text \<open>The \<^verbatim>\<open>while\<close> loop of \<^verbatim>\<open>listAllBranches\<close>; it collects the branch names.\<close>

function listAllBranches_loop ::
  "(int \<Rightarrow> int \<Rightarrow> js_error + branch list) \<Rightarrow> int \<Rightarrow> int \<Rightarrow> string list \<Rightarrow> int
    \<Rightarrow> rest_call list \<times> (js_error + string list)" where
  "listAllBranches_loop api limit perPage branches page =
     (if int (length branches) < limit then
        (case api perPage page of
           Inl e \<Rightarrow> ([ReposListBranches perPage page], Inl e)
         | Inr data \<Rightarrow>
             if length data = 0 then ([ReposListBranches perPage page], Inr branches)
             else if int (length data) < perPage
               then ([ReposListBranches perPage page], Inr (branches @ map branch_name data))
             else
               (case listAllBranches_loop api limit perPage
                       (branches @ map branch_name data) (page + 1) of
                  (cs, r) \<Rightarrow> (ReposListBranches perPage page # cs, r)))
      else ([], Inr branches))"
  by pat_completeness auto
termination
  by (relation "measure (\<lambda>(api, limit, perPage, branches, page).
        nat (limit - int (length branches)))") auto

declare listAllBranches_loop.simps [simp del]

definition listAllBranches ::
  "(int \<Rightarrow> int \<Rightarrow> js_error + branch list) \<Rightarrow> int option \<Rightarrow> (js_error + string list) run" where
  "listAllBranches api limit_opt =
     (let limit = with_default 100 limit_opt;
          perPage = min limit 100
      in case listAllBranches_loop api limit perPage [] 1 of
           (cs, Inl e) \<Rightarrow> \<lparr>calls = cs, infos = [], result = Inl e\<rparr>
         | (cs, Inr branches) \<Rightarrow>
             \<lparr>calls = cs, infos = [], result = Inr (slice0 branches limit)\<rparr>)"

text \<open>
  \<^verbatim>\<open>getBranchProtection\<close>: \<open>Some data\<close> is the protection object, \<open>None\<close> is
  \<^verbatim>\<open>null\<close>.
\<close>

definition getBranchProtection ::
  "(string \<Rightarrow> js_error + 'p) \<Rightarrow> string \<Rightarrow> (js_error + 'p option) run" where
  "getBranchProtection api br =
     \<lparr>calls = [ReposGetBranchProtection br], infos = [],
      result = (case api br of
                  Inr data \<Rightarrow> Inr (Some data)
                | Inl e \<Rightarrow> if err_status e = Some 404 then Inr None else Inl e)\<rparr>"

section \<open>Pull requests\<close>

text \<open>
  A label of a listed pull request is a string or an object with a \<^verbatim>\<open>name\<close>; the filters
  read the \<^verbatim>\<open>number\<close>, the \<^verbatim>\<open>labels\<close> and \<^verbatim>\<open>user?.login\<close> of a pull request.
\<close>

datatype label = LabelString string | LabelObject string

fun label_name :: "label \<Rightarrow> string" where
  "label_name (LabelString s) = s"
| "label_name (LabelObject n) = n"

record pull_request =
  pr_number :: int
  pr_labels :: "label list"
  pr_login :: "string option"

text \<open>
  The callback given to \<^verbatim>\<open>data.filter\<close> in \<^verbatim>\<open>findPRsWithLabels\<close>:
  \<^verbatim>\<open>labels.every((requiredLabel) => prLabels.includes(requiredLabel))\<close> for a pull request
  that is not excluded.
\<close>

definition findPRsWithLabels_filter :: "string list \<Rightarrow> int list \<Rightarrow> pull_request \<Rightarrow> bool" where
  "findPRsWithLabels_filter labels excludePRs pr =
     (if pr_number pr \<in> set excludePRs then False
      else (let prLabels = map label_name (pr_labels pr)
            in list_all (\<lambda>requiredLabel. requiredLabel \<in> set prLabels) labels))"

text \<open>
  The \<^verbatim>\<open>while\<close> loop of \<^verbatim>\<open>findPRsWithLabels\<close>. A provider that keeps returning full
  pages without a match keeps the loop running, so the model counts rounds: with no
  round left it returns the requests sent so far and no result.
\<close>

fun findPRsWithLabels_loop ::
  "nat \<Rightarrow> (int \<Rightarrow> int option \<Rightarrow> js_error + pull_request list) \<Rightarrow> string list \<Rightarrow> int list
    \<Rightarrow> int \<Rightarrow> int \<Rightarrow> pull_request list \<Rightarrow> int
    \<Rightarrow> rest_call list \<times> (js_error + pull_request list) option" where
  "findPRsWithLabels_loop 0 api labels excludePRs limit perPage pullRequests page = ([], None)"
| "findPRsWithLabels_loop (Suc fuel) api labels excludePRs limit perPage pullRequests page =
     (if int (length pullRequests) < limit then
        (case api perPage (Some page) of
           Inl e \<Rightarrow> ([PullsList perPage (Some page)], Some (Inl e))
         | Inr data \<Rightarrow>
             if length data = 0
               then ([PullsList perPage (Some page)], Some (Inr pullRequests))
             else
               (let matchingPRs = filter (findPRsWithLabels_filter labels excludePRs) data;
                    pullRequests' = pullRequests @ matchingPRs
                in if int (length data) < perPage \<or> int (length pullRequests') \<ge> limit
                     then ([PullsList perPage (Some page)], Some (Inr pullRequests'))
                   else
                     (case findPRsWithLabels_loop fuel api labels excludePRs limit perPage
                             pullRequests' (page + 1) of
                        (cs, r) \<Rightarrow> (PullsList perPage (Some page) # cs, r))))
      else ([], Some (Inr pullRequests)))"

text \<open>
  \<^verbatim>\<open>findPRsWithLabels\<close>. The result \<open>None\<close> says that the loop was still running when
  the rounds were used up.
\<close>

definition findPRsWithLabels ::
  "nat \<Rightarrow> (int \<Rightarrow> int option \<Rightarrow> js_error + pull_request list) \<Rightarrow> string list \<Rightarrow> int option
    \<Rightarrow> int list option \<Rightarrow> (js_error + pull_request list) option run" where
  "findPRsWithLabels fuel api labels limit_opt excludePRs_opt =
     (let limit = with_default 100 limit_opt;
          excludePRs = with_default [] excludePRs_opt
      in if length labels = 0
           then \<lparr>calls = [], infos = [],
                 result = Some (Inl (JsError None ''At least one label must be specified''))\<rparr>
         else
           (let perPage = min (limit * 2) 100
            in case findPRsWithLabels_loop fuel api labels excludePRs limit perPage [] 1 of
                 (cs, None) \<Rightarrow>
                   \<lparr>calls = cs, infos = [SearchingForPRsWithLabels labels], result = None\<rparr>
               | (cs, Some (Inl e)) \<Rightarrow>
                   \<lparr>calls = cs, infos = [SearchingForPRsWithLabels labels],
                    result = Some (Inl e)\<rparr>
               | (cs, Some (Inr pullRequests)) \<Rightarrow>
                   \<lparr>calls = cs,
                    infos = [SearchingForPRsWithLabels labels,
                             FoundPRsMatching (length pullRequests)],
                    result = Some (Inr (slice0 pullRequests limit))\<rparr>))"

text \<open>
  The options of \<^verbatim>\<open>searchPullRequests\<close> that its loop reads (\<^verbatim>\<open>state\<close>, \<^verbatim>\<open>sort\<close>
  and \<^verbatim>\<open>direction\<close> go to the endpoint unchanged), and the callback of its filter. An
  empty \<^verbatim>\<open>author\<close> is falsy and filters nothing.
\<close>

record advanced_pr_search_options =
  opt_labels :: "string list option"
  opt_author :: "string option"
  opt_limit :: "int option"
  opt_excludePRs :: "int list option"

definition searchPullRequests_filter ::
  "string list \<Rightarrow> string option \<Rightarrow> int list \<Rightarrow> pull_request \<Rightarrow> bool" where
  "searchPullRequests_filter labels author excludePRs pr =
     (if pr_number pr \<in> set excludePRs then False
      else if (case author of None \<Rightarrow> False | Some a \<Rightarrow> a \<noteq> [] \<and> pr_login pr \<noteq> Some a)
        then False
      else if length labels > 0 \<and>
              \<not> list_all (\<lambda>requiredLabel. requiredLabel \<in> set (map label_name (pr_labels pr)))
                   labels
        then False
      else True)"

fun searchPullRequests_loop ::
  "nat \<Rightarrow> (int \<Rightarrow> int option \<Rightarrow> js_error + pull_request list) \<Rightarrow> string list
    \<Rightarrow> string option \<Rightarrow> int list \<Rightarrow> int \<Rightarrow> int \<Rightarrow> pull_request list \<Rightarrow> int
    \<Rightarrow> rest_call list \<times> (js_error + pull_request list) option" where
  "searchPullRequests_loop 0 api labels author excludePRs limit perPage pullRequests page =
     ([], None)"
| "searchPullRequests_loop (Suc fuel) api labels author excludePRs limit perPage pullRequests
       page =
     (if int (length pullRequests) < limit then
        (case api perPage (Some page) of
           Inl e \<Rightarrow> ([PullsList perPage (Some page)], Some (Inl e))
         | Inr data \<Rightarrow>
             if length data = 0
               then ([PullsList perPage (Some page)], Some (Inr pullRequests))
             else
               (let filteredPRs = filter (searchPullRequests_filter labels author excludePRs) data;
                    pullRequests' = pullRequests @ filteredPRs
                in if int (length data) < perPage \<or> int (length pullRequests') \<ge> limit
                     then ([PullsList perPage (Some page)], Some (Inr pullRequests'))
                   else
                     (case searchPullRequests_loop fuel api labels author excludePRs limit
                             perPage pullRequests' (page + 1) of
                        (cs, r) \<Rightarrow> (PullsList perPage (Some page) # cs, r))))
      else ([], Some (Inr pullRequests)))"

definition searchPullRequests ::
  "nat \<Rightarrow> (int \<Rightarrow> int option \<Rightarrow> js_error + pull_request list) \<Rightarrow> advanced_pr_search_options
    \<Rightarrow> (js_error + pull_request list) option run" where
  "searchPullRequests fuel api options =
     (let labels = with_default [] (opt_labels options);
          author = opt_author options;
          limit = with_default 100 (opt_limit options);
          excludePRs = with_default [] (opt_excludePRs options);
          perPage = min (limit * 2) 100
      in case searchPullRequests_loop fuel api labels author excludePRs limit perPage [] 1 of
           (cs, None) \<Rightarrow> \<lparr>calls = cs, infos = [], result = None\<rparr>
         | (cs, Some (Inl e)) \<Rightarrow> \<lparr>calls = cs, infos = [], result = Some (Inl e)\<rparr>
         | (cs, Some (Inr pullRequests)) \<Rightarrow>
             \<lparr>calls = cs, infos = [], result = Some (Inr (slice0 pullRequests limit))\<rparr>)"

text \<open>
  \<^verbatim>\<open>findPullRequestsByLabels\<close> lists one page, without a \<^verbatim>\<open>page\<close> argument, and filters
  it; its filter has no exclusion list.
\<close>

record pull_request_search_options =
  pso_labels :: "string list"
  pso_limit :: "int option"

definition findPullRequestsByLabels ::
  "(int \<Rightarrow> int option \<Rightarrow> js_error + pull_request list) \<Rightarrow> pull_request_search_options
    \<Rightarrow> (js_error + pull_request list) run" where
  "findPullRequestsByLabels api options =
     (let labels = pso_labels options;
          limit = with_default 30 (pso_limit options)
      in if length labels = 0
           then \<lparr>calls = [], infos = [],
                 result = Inl (JsError None ''At least one label must be specified'')\<rparr>
         else
           (case api (min (limit * 2) 100) None of
              Inl e \<Rightarrow>
                \<lparr>calls = [PullsList (min (limit * 2) 100) None],
                 infos = [SearchingForPRsWithLabels labels], result = Inl e\<rparr>
            | Inr pullRequests \<Rightarrow>
                (let matchingPRs =
                       filter (\<lambda>pr. let prLabels = map label_name (pr_labels pr)
                                     in list_all (\<lambda>requiredLabel. requiredLabel \<in> set prLabels)
                                          labels)
                         pullRequests
                 in \<lparr>calls = [PullsList (min (limit * 2) 100) None],
                     infos = [SearchingForPRsWithLabels labels,
                              FoundPRsMatching (length matchingPRs)],
                     result = Inr (slice0 matchingPRs limit)\<rparr>)))"

definition getPullRequest ::
  "(int \<Rightarrow> js_error + pull_request) \<Rightarrow> int \<Rightarrow> (js_error + pull_request) run" where
  "getPullRequest api pullNumber =
     \<lparr>calls = [PullsGet pullNumber], infos = [GettingPullRequest pullNumber],
      result = api pullNumber\<rparr>"

text \<open>
  The \<^verbatim>\<open>for\<close> loop of \<^verbatim>\<open>removeLabelsFromPullRequest\<close> over the labels that are left.
  \<open>api k pullNumber label\<close> is the provider's answer to the request numbered \<open>k\<close> of the
  invocation, counted from 0: \<open>None\<close> when the removal succeeds, \<open>Some error\<close> when it
  is rejected.
\<close>

fun removeLabels_loop ::
  "(nat \<Rightarrow> int \<Rightarrow> string \<Rightarrow> js_error option) \<Rightarrow> int \<Rightarrow> nat \<Rightarrow> string list
    \<Rightarrow> (js_error + unit) run" where
  "removeLabels_loop api pullNumber k [] = \<lparr>calls = [], infos = [], result = Inr ()\<rparr>"
| "removeLabels_loop api pullNumber k (label # rest) =
     (case api k pullNumber label of
        None \<Rightarrow>
          (let r = removeLabels_loop api pullNumber (Suc k) rest
           in r\<lparr>calls := IssuesRemoveLabel pullNumber label # calls r\<rparr>)
      | Some error \<Rightarrow>
          if err_status error = Some 404 then
            (let r = removeLabels_loop api pullNumber (Suc k) rest
             in r\<lparr>calls := IssuesRemoveLabel pullNumber label # calls r,
                  infos := LabelNotPresentOnPR label pullNumber # infos r\<rparr>)
          else \<lparr>calls = [IssuesRemoveLabel pullNumber label], infos = [], result = Inl error\<rparr>)"

definition removeLabelsFromPullRequest ::
  "(nat \<Rightarrow> int \<Rightarrow> string \<Rightarrow> js_error option) \<Rightarrow> int \<Rightarrow> string list \<Rightarrow> (js_error + unit) run"
  where
  "removeLabelsFromPullRequest api pullNumber labels =
     (if length labels = 0
        then \<lparr>calls = [], infos = [NoLabelsToRemove], result = Inr ()\<rparr>
      else
        (let r = removeLabels_loop api pullNumber 0 labels
         in r\<lparr>infos := RemovingLabelsFromPR pullNumber labels # infos r\<rparr>))"

text \<open>
  \<^verbatim>\<open>pullRequestHasLabels\<close> reads \<^verbatim>\<open>label.name\<close> of every label, which is
  \<^verbatim>\<open>undefined\<close> (\<open>None\<close>) on a label that is a plain string. \<^verbatim>\<open>requireAll\<close> defaults
  to \<^verbatim>\<open>true\<close>.
\<close>

definition pullRequestHasLabels ::
  "(int \<Rightarrow> js_error + pull_request) \<Rightarrow> int \<Rightarrow> string list \<Rightarrow> bool option
    \<Rightarrow> (js_error + bool) run" where
  "pullRequestHasLabels api pullNumber labels requireAll_opt =
     (let requireAll = with_default True requireAll_opt;
          got = getPullRequest api pullNumber
      in case result got of
           Inl e \<Rightarrow> \<lparr>calls = calls got, infos = infos got, result = Inl e\<rparr>
         | Inr pr \<Rightarrow>
             (let prLabels =
                    map (\<lambda>l. case l of LabelObject n \<Rightarrow> Some n | LabelString s \<Rightarrow> None)
                      (pr_labels pr)
              in \<lparr>calls = calls got, infos = infos got,
                  result = Inr (if requireAll
                                then list_all (\<lambda>l. Some l \<in> set prLabels) labels
                                else list_ex (\<lambda>l. Some l \<in> set prLabels) labels)\<rparr>))"

section \<open>Comments\<close>

text \<open>
  A \<^verbatim>\<open>Date\<close> is its time value in milliseconds, or invalid (time value \<^verbatim>\<open>NaN\<close>);
  \<^verbatim>\<open>a < b\<close> and \<^verbatim>\<open>a > b\<close> on dates compare the time values and are false as soon as
  one of them is \<^verbatim>\<open>NaN\<close>.
\<close>

datatype js_date = ValidDate int | InvalidDate

fun date_less :: "js_date \<Rightarrow> js_date \<Rightarrow> bool" where
  "date_less (ValidDate a) (ValidDate b) = (a < b)"
| "date_less _ _ = False"

text \<open>
  The strings that \<^verbatim>\<open>searchComments\<close> reads are lists of code units, of a type \<open>'c\<close>
  that is left open (the 16-bit code units of the engine are one instance).
  \<^verbatim>\<open>s.includes(t)\<close> holds when \<open>t\<close> occurs in \<open>s\<close> as a contiguous block.
\<close>

fun js_includes :: "'a list \<Rightarrow> 'a list \<Rightarrow> bool" where
  "js_includes [] t = (t = [])"
| "js_includes (c # s) t = (take (length t) (c # s) = t \<or> js_includes s t)"

record 'c issue_comment =
  comment_body :: "'c list option"
  comment_login :: "'c list option"
  comment_created_at :: "'c list"

record 'c comment_search_options =
  cso_bodyContains :: "'c list option"
  cso_author :: "'c list option"
  cso_createdAfter :: "js_date option"
  cso_createdBefore :: "js_date option"
  cso_limit :: "int option"

text \<open>
  \<^verbatim>\<open>searchComments\<close>. Two built-ins of the engine are parameters: \<open>toLowerCase\<close>
  stands for \<^verbatim>\<open>String.prototype.toLowerCase\<close>, whatever it does to a string, and
  \<open>newDate\<close> for the \<^verbatim>\<open>Date\<close> constructor on a string. An empty \<^verbatim>\<open>bodyContains\<close> or
  \<^verbatim>\<open>author\<close> is falsy and its filter is skipped; a date object is always truthy.
\<close>

definition searchComments ::
  "(int \<Rightarrow> int \<Rightarrow> js_error + 'c issue_comment list) \<Rightarrow> ('c list \<Rightarrow> 'c list)
    \<Rightarrow> ('c list \<Rightarrow> js_date) \<Rightarrow> int \<Rightarrow> 'c comment_search_options
    \<Rightarrow> (js_error + 'c issue_comment list) run" where
  "searchComments api toLowerCase newDate issueNumber options =
     (let limit = with_default 100 (cso_limit options)
      in case api issueNumber (min limit 100) of
           Inl e \<Rightarrow>
             \<lparr>calls = [IssuesListComments issueNumber (min limit 100)], infos = [],
              result = Inl e\<rparr>
         | Inr allComments \<Rightarrow>
             (let filtered1 =
                    (case cso_bodyContains options of
                       None \<Rightarrow> allComments
                     | Some bodyContains \<Rightarrow>
                         if bodyContains = [] then allComments
                         else filter (\<lambda>comment.
                                case comment_body comment of
                                  None \<Rightarrow> False
                                | Some body \<Rightarrow>
                                    js_includes (toLowerCase body) (toLowerCase bodyContains))
                              allComments);
                  filtered2 =
                    (case cso_author options of
                       None \<Rightarrow> filtered1
                     | Some author \<Rightarrow>
                         if author = [] then filtered1
                         else filter (\<lambda>comment. comment_login comment = Some author) filtered1);
                  filtered3 =
                    (case cso_createdAfter options of
                       None \<Rightarrow> filtered2
                     | Some createdAfter \<Rightarrow>
                         filter (\<lambda>comment.
                                date_less createdAfter (newDate (comment_created_at comment)))
                           filtered2);
                  filtered4 =
                    (case cso_createdBefore options of
                       None \<Rightarrow> filtered3
                     | Some createdBefore \<Rightarrow>
                         filter (\<lambda>comment.
                                date_less (newDate (comment_created_at comment)) createdBefore)
                           filtered3)
              in \<lparr>calls = [IssuesListComments issueNumber (min limit 100)], infos = [],
                  result = Inr (slice0 filtered4 limit)\<rparr>))"

section \<open>Notions used in the statements\<close>

text \<open>
  A response that tells the caller that the listing is exhausted: an empty page, or a
  page with fewer raw items than were asked for.
\<close>

definition page_ends_listing :: "int \<Rightarrow> js_error + 'a list \<Rightarrow> bool" where
  "page_ends_listing perPage response =
     (case response of
        Inl e \<Rightarrow> False
      | Inr data \<Rightarrow> length data = 0 \<or> int (length data) < perPage)"

text \<open>A response that is a page with at least as many raw items as were asked for.\<close>

definition page_is_full :: "int \<Rightarrow> js_error + 'a list \<Rightarrow> bool" where
  "page_is_full perPage response =
     (case response of
        Inl e \<Rightarrow> False
      | Inr data \<Rightarrow> length data \<noteq> 0 \<and> \<not> int (length data) < perPage)"

text \<open>The raw items that the provider returned for a listing request; none if it failed.\<close>

definition listDeployments_items ::
  "(int \<Rightarrow> int \<Rightarrow> js_error + 'd list) \<Rightarrow> rest_call \<Rightarrow> 'd list" where
  "listDeployments_items api c =
     (case c of
        ReposListDeployments perPage page \<Rightarrow>
          (case api perPage page of Inl e \<Rightarrow> [] | Inr data \<Rightarrow> data)
      | _ \<Rightarrow> [])"

definition listBranches_items ::
  "(int \<Rightarrow> int \<Rightarrow> js_error + branch list) \<Rightarrow> rest_call \<Rightarrow> branch list" where
  "listBranches_items api c =
     (case c of
        ReposListBranches perPage page \<Rightarrow>
          (case api perPage page of Inl e \<Rightarrow> [] | Inr data \<Rightarrow> data)
      | _ \<Rightarrow> [])"

definition pullsList_items ::
  "(int \<Rightarrow> int option \<Rightarrow> js_error + pull_request list) \<Rightarrow> rest_call \<Rightarrow> pull_request list"
  where
  "pullsList_items api c =
     (case c of
        PullsList perPage page \<Rightarrow>
          (case api perPage page of Inl e \<Rightarrow> [] | Inr data \<Rightarrow> data)
      | _ \<Rightarrow> [])"

text \<open>
  The four search criteria of \<^verbatim>\<open>searchComments\<close>, each as a test on one comment; a
  criterion that is absent (or an empty string) accepts every comment. The body criterion
  compares the lower-cased body with the lower-cased text searched for.
\<close>

definition comment_body_contains ::
  "('c list \<Rightarrow> 'c list) \<Rightarrow> 'c list option \<Rightarrow> 'c issue_comment \<Rightarrow> bool" where
  "comment_body_contains toLowerCase bodyContains c =
     (case bodyContains of
        None \<Rightarrow> True
      | Some t \<Rightarrow>
          t = [] \<or>
          (case comment_body c of
             None \<Rightarrow> False
           | Some b \<Rightarrow> js_includes (toLowerCase b) (toLowerCase t)))"

definition comment_by_author :: "'c list option \<Rightarrow> 'c issue_comment \<Rightarrow> bool" where
  "comment_by_author author c =
     (case author of None \<Rightarrow> True | Some a \<Rightarrow> a = [] \<or> comment_login c = Some a)"

definition comment_created_after ::
  "('c list \<Rightarrow> js_date) \<Rightarrow> js_date option \<Rightarrow> 'c issue_comment \<Rightarrow> bool" where
  "comment_created_after newDate createdAfter c =
     (case createdAfter of
        None \<Rightarrow> True
      | Some d \<Rightarrow> date_less d (newDate (comment_created_at c)))"

definition comment_created_before ::
  "('c list \<Rightarrow> js_date) \<Rightarrow> js_date option \<Rightarrow> 'c issue_comment \<Rightarrow> bool" where
  "comment_created_before newDate createdBefore c =
     (case createdBefore of
        None \<Rightarrow> True
      | Some d \<Rightarrow> date_less (newDate (comment_created_at c)) d)"

text \<open>
  An answer to a label removal that lets the loop of \<^verbatim>\<open>removeLabelsFromPullRequest\<close>
  go on: success, or a failure with status 404.
\<close>

definition removal_tolerated :: "js_error option \<Rightarrow> bool" where
  "removal_tolerated answer =
     (case answer of None \<Rightarrow> True | Some e \<Rightarrow> err_status e = Some 404)"

section \<open>Example providers\<close>

text \<open>Concrete inputs on which the statements below are evaluated.\<close>

definition pr_example :: "int \<Rightarrow> string list \<Rightarrow> pull_request" where
  "pr_example n names = \<lparr>pr_number = n, pr_labels = map LabelObject names, pr_login = None\<rparr>"

text \<open>
  A repository with three pull requests, listed two to a page: the first page is full and
  has no pull request labelled \<^verbatim>\<open>bug\<close>, the second has one pull request, labelled
  \<^verbatim>\<open>bug\<close>.
\<close>

definition pulls_in_two_pages :: "int \<Rightarrow> int option \<Rightarrow> js_error + pull_request list" where
  "pulls_in_two_pages perPage page =
     (if page = Some 1 then Inr [pr_example 1 [''docs''], pr_example 2 []]
      else Inr [pr_example 3 [''bug'']])"

definition search_bug_limit_1 :: advanced_pr_search_options where
  "search_bug_limit_1 =
     \<lparr>opt_labels = Some [''bug''], opt_author = None, opt_limit = Some 1,
      opt_excludePRs = None\<rparr>"

text \<open>A provider that answers every request with the same five deployments.\<close>

definition five_deployments :: "int \<Rightarrow> int \<Rightarrow> js_error + nat list" where
  "five_deployments perPage page = Inr [1, 2, 3, 4, 5]"

text \<open>A provider that answers every request with the same two branches.\<close>

definition two_branches :: "int \<Rightarrow> int \<Rightarrow> js_error + branch list" where
  "two_branches perPage page =
     Inr [\<lparr>branch_name = ''main'', branch_protected = True\<rparr>,
          \<lparr>branch_name = ''develop'', branch_protected = False\<rparr>]"

text \<open>
  A provider of branch data: \<^verbatim>\<open>main\<close> exists, \<^verbatim>\<open>gone\<close> is answered with status
  404, any other branch with status 500.
\<close>

definition branch_lookup :: "string \<Rightarrow> js_error + branch" where
  "branch_lookup b =
     (if b = ''main'' then Inr \<lparr>branch_name = ''main'', branch_protected = True\<rparr>
      else if b = ''gone'' then Inl (JsError (Some 404) ''Not Found'')
      else Inl (JsError (Some 500) ''Server Error''))"

text \<open>
  Providers that hold 237 items, numbered from 0, and answer a request with the items of
  the page asked for: as deployments (the numbers), as branches and as pull requests
  labelled \<^verbatim>\<open>bug\<close>.
\<close>

definition deployments_237 :: "int \<Rightarrow> int \<Rightarrow> js_error + nat list" where
  "deployments_237 perPage page =
     Inr [nat ((page - 1) * perPage)..<min 237 (nat (page * perPage))]"

definition branch_example :: "nat \<Rightarrow> branch" where
  "branch_example i = \<lparr>branch_name = replicate i CHR ''b'', branch_protected = False\<rparr>"

definition branches_237 :: "int \<Rightarrow> int \<Rightarrow> js_error + branch list" where
  "branches_237 perPage page =
     Inr (map branch_example [nat ((page - 1) * perPage)..<min 237 (nat (page * perPage))])"

definition pulls_237 :: "int \<Rightarrow> int option \<Rightarrow> js_error + pull_request list" where
  "pulls_237 perPage page =
     (case page of
        None \<Rightarrow> Inr (map (\<lambda>i. pr_example (int i) [''bug'']) [0..<min 237 (nat perPage)])
      | Some p \<Rightarrow>
          Inr (map (\<lambda>i. pr_example (int i) [''bug''])
                 [nat ((p - 1) * perPage)..<min 237 (nat (p * perPage))]))"

text \<open>
  A provider that answers with one page of three pull requests, labelled A and B, A alone,
  and A, B and C.
\<close>

definition prs_labelled_abc :: "int \<Rightarrow> int option \<Rightarrow> js_error + pull_request list" where
  "prs_labelled_abc perPage page =
     Inr [pr_example 1 [''A'', ''B''], pr_example 2 [''A''],
          pr_example 3 [''A'', ''B'', ''C'']]"

text \<open>
  Examples for \<^verbatim>\<open>searchComments\<close>, with code units as numbers. \<open>units\<close> gives the
  code units of a text written in ASCII. \<open>lower_units\<close> lower-cases strings of code
  units below 256 as the engine does: the letters A to Z, and the letters from 192
  (A grave) to 222 (capital thorn) except 215 (the multiplication sign), move 32 places up.
  There are eight comments of one issue, a reading of their dates as milliseconds since
  1970, a search for comments by \<^verbatim>\<open>bot\<close> after 1 January 2024 that contain
  \<^verbatim>\<open>ERROR\<close>, and a search for the letter e acute (233).
\<close>

definition units :: "string \<Rightarrow> nat list" where
  "units s = map of_char s"

definition lower_units :: "nat list \<Rightarrow> nat list" where
  "lower_units s =
     map (\<lambda>n. if (65 \<le> n \<and> n \<le> 90) \<or> (192 \<le> n \<and> n \<le> 222 \<and> n \<noteq> 215) then n + 32 else n) s"

definition comment_example :: "nat list option \<Rightarrow> string \<Rightarrow> string \<Rightarrow> nat issue_comment" where
  "comment_example b l d =
     \<lparr>comment_body = b, comment_login = Some (units l), comment_created_at = units d\<rparr>"

definition eight_comments :: "int \<Rightarrow> int \<Rightarrow> js_error + nat issue_comment list" where
  "eight_comments issueNumber perPage =
     Inr [comment_example (Some (units ''Build error in step 1'')) ''bot'' ''2024-02-01'',
          comment_example (Some (units ''all good'')) ''bot'' ''2024-02-02'',
          comment_example None ''bot'' ''2024-02-02'',
          comment_example (Some (units ''another error'')) ''alice'' ''2024-02-02'',
          comment_example (Some (units ''error last year'')) ''bot'' ''2023-12-31'',
          comment_example (Some (units ''Error: timeout'')) ''bot'' ''2024-03-01'',
          comment_example (Some (units ''error again'')) ''bot'' ''soon'',
          comment_example (Some (units ''CAF'' @ [201] @ units '' closed'')) ''alice''
            ''2024-03-01'']"

definition date_example :: "nat list \<Rightarrow> js_date" where
  "date_example s =
     (case map_of [(units ''2023-12-31'', 1703980800000), (units ''2024-01-01'', 1704067200000),
                   (units ''2024-02-01'', 1706745600000), (units ''2024-02-02'', 1706832000000),
                   (units ''2024-03-01'', 1709251200000)] s of
        None \<Rightarrow> InvalidDate
      | Some t \<Rightarrow> ValidDate t)"

definition search_bot_errors :: "nat comment_search_options" where
  "search_bot_errors =
     \<lparr>cso_bodyContains = Some (units ''ERROR''), cso_author = Some (units ''bot''),
      cso_createdAfter = Some (ValidDate 1704067200000), cso_createdBefore = None,
      cso_limit = Some 10\<rparr>"

definition search_e_acute :: "nat comment_search_options" where
  "search_e_acute =
     \<lparr>cso_bodyContains = Some [233], cso_author = None, cso_createdAfter = None,
      cso_createdBefore = None, cso_limit = None\<rparr>"

text \<open>
  A provider of label removals: the label \<^verbatim>\<open>nonexistent\<close> is answered with status
  404, the label \<^verbatim>\<open>locked\<close> with status 403, any other label is removed.
\<close>

definition label_removal_example :: "nat \<Rightarrow> int \<Rightarrow> string \<Rightarrow> js_error option" where
  "label_removal_example k pullNumber l =
     (if l = ''nonexistent'' then Some (JsError (Some 404) ''Not Found'')
      else if l = ''locked'' then Some (JsError (Some 403) ''Forbidden'')
      else None)"

text \<open>A repository without pull requests, and one where every pull request is labelled
  \<^verbatim>\<open>bug\<close>.\<close>

definition no_pulls :: "int \<Rightarrow> int option \<Rightarrow> js_error + pull_request list" where
  "no_pulls perPage page = Inr []"

definition pull_labelled_bug :: "int \<Rightarrow> js_error + pull_request" where
  "pull_labelled_bug pullNumber = Inr (pr_example pullNumber [''bug''])"

section \<open>Properties of the pagination loops\<close>

subsection \<open>The requests of a run are consecutive pages of one size\<close>

lemma listDeployments_loop_calls:
  "fst (listDeployments_loop api limit perPage deployments page) =
     map (\<lambda>i. ReposListDeployments perPage (page + int i))
       [0..<length (fst (listDeployments_loop api limit perPage deployments page))]"
proof (induction api limit perPage deployments page rule: listDeployments_loop.induct)
  case (1 api limit perPage deployments page)
  then show ?case
    by (auto simp: listDeployments_loop.simps[of api limit perPage deployments page]
          map_upt_Suc add.assoc simp del: upt_Suc
          split: sum.splits prod.splits)
qed

lemma listAllBranches_loop_calls:
  "fst (listAllBranches_loop api limit perPage branches page) =
     map (\<lambda>i. ReposListBranches perPage (page + int i))
       [0..<length (fst (listAllBranches_loop api limit perPage branches page))]"
proof (induction api limit perPage branches page rule: listAllBranches_loop.induct)
  case (1 api limit perPage branches page)
  then show ?case
    by (auto simp: listAllBranches_loop.simps[of api limit perPage branches page]
          map_upt_Suc add.assoc simp del: upt_Suc
          split: sum.splits prod.splits)
qed

lemma findPRsWithLabels_loop_nth:
  "i < length (fst (findPRsWithLabels_loop fuel api labels excludePRs limit perPage
                      pullRequests page)) \<Longrightarrow>
   fst (findPRsWithLabels_loop fuel api labels excludePRs limit perPage pullRequests page) ! i =
     PullsList perPage (Some (page + int i))"
proof (induction fuel arbitrary: pullRequests page i)
  case 0
  then show ?case by simp
next
  case (Suc fuel)
  show ?case
  proof (cases i)
    case 0
    with Suc.prems show ?thesis
      by (auto simp: Let_def case_prod_beta split: sum.splits if_splits)
  next
    case (Suc i')
    with Suc.prems Suc.IH[of i' _ "page + 1"] show ?thesis
      by (auto simp: Let_def case_prod_beta add.assoc split: sum.splits if_splits)
  qed
qed

lemma findPRsWithLabels_loop_calls:
  "fst (findPRsWithLabels_loop fuel api labels excludePRs limit perPage pullRequests page) =
     map (\<lambda>i. PullsList perPage (Some (page + int i)))
       [0..<length (fst (findPRsWithLabels_loop fuel api labels excludePRs limit perPage
                           pullRequests page))]"
  by (rule nth_equalityI) (simp_all add: findPRsWithLabels_loop_nth)

lemma searchPullRequests_loop_nth:
  "i < length (fst (searchPullRequests_loop fuel api labels author excludePRs limit perPage
                      pullRequests page)) \<Longrightarrow>
   fst (searchPullRequests_loop fuel api labels author excludePRs limit perPage pullRequests
          page) ! i =
     PullsList perPage (Some (page + int i))"
proof (induction fuel arbitrary: pullRequests page i)
  case 0
  then show ?case by simp
next
  case (Suc fuel)
  show ?case
  proof (cases i)
    case 0
    with Suc.prems show ?thesis
      by (auto simp: Let_def case_prod_beta split: sum.splits if_splits)
  next
    case (Suc i')
    with Suc.prems Suc.IH[of i' _ "page + 1"] show ?thesis
      by (auto simp: Let_def case_prod_beta add.assoc split: sum.splits if_splits)
  qed
qed

lemma searchPullRequests_loop_calls:
  "fst (searchPullRequests_loop fuel api labels author excludePRs limit perPage pullRequests
          page) =
     map (\<lambda>i. PullsList perPage (Some (page + int i)))
       [0..<length (fst (searchPullRequests_loop fuel api labels author excludePRs limit
                           perPage pullRequests page))]"
  by (rule nth_equalityI) (simp_all add: searchPullRequests_loop_nth)

subsection \<open>A short or empty page is answered by no further request\<close>

lemma listDeployments_loop_short_last:
  "j < length (fst (listDeployments_loop api limit perPage deployments page)) \<Longrightarrow>
   page_ends_listing perPage (api perPage (page + int j)) \<Longrightarrow>
   Suc j = length (fst (listDeployments_loop api limit perPage deployments page))"
proof (induction api limit perPage deployments page arbitrary: j
        rule: listDeployments_loop.induct)
  case (1 api limit perPage deployments page)
  show ?case
  proof (cases j)
    case 0
    with "1.prems" show ?thesis
      by (auto simp: listDeployments_loop.simps[of api limit perPage deployments page]
            page_ends_listing_def split: sum.splits prod.splits if_splits)
  next
    case (Suc j')
    with "1.prems" "1.IH"[of _ j'] show ?thesis
      by (auto simp: listDeployments_loop.simps[of api limit perPage deployments page]
            add.assoc split: sum.splits prod.splits if_splits)
  qed
qed

lemma listAllBranches_loop_short_last:
  "j < length (fst (listAllBranches_loop api limit perPage branches page)) \<Longrightarrow>
   page_ends_listing perPage (api perPage (page + int j)) \<Longrightarrow>
   Suc j = length (fst (listAllBranches_loop api limit perPage branches page))"
proof (induction api limit perPage branches page arbitrary: j
        rule: listAllBranches_loop.induct)
  case (1 api limit perPage branches page)
  show ?case
  proof (cases j)
    case 0
    with "1.prems" show ?thesis
      by (auto simp: listAllBranches_loop.simps[of api limit perPage branches page]
            page_ends_listing_def split: sum.splits prod.splits if_splits)
  next
    case (Suc j')
    with "1.prems" "1.IH"[of _ j'] show ?thesis
      by (auto simp: listAllBranches_loop.simps[of api limit perPage branches page]
            add.assoc split: sum.splits prod.splits if_splits)
  qed
qed

lemma findPRsWithLabels_loop_short_last:
  "j < length (fst (findPRsWithLabels_loop fuel api labels excludePRs limit perPage
                      pullRequests page)) \<Longrightarrow>
   page_ends_listing perPage (api perPage (Some (page + int j))) \<Longrightarrow>
   Suc j = length (fst (findPRsWithLabels_loop fuel api labels excludePRs limit perPage
                          pullRequests page))"
proof (induction fuel arbitrary: pullRequests page j)
  case 0
  then show ?case by simp
next
  case (Suc fuel)
  show ?case
  proof (cases j)
    case 0
    with Suc.prems show ?thesis
      by (auto simp: Let_def case_prod_beta page_ends_listing_def split: sum.splits if_splits)
  next
    case (Suc j')
    with Suc.prems Suc.IH[of j' _ "page + 1"] show ?thesis
      by (auto simp: Let_def case_prod_beta add.assoc split: sum.splits if_splits)
  qed
qed

lemma searchPullRequests_loop_short_last:
  "j < length (fst (searchPullRequests_loop fuel api labels author excludePRs limit perPage
                      pullRequests page)) \<Longrightarrow>
   page_ends_listing perPage (api perPage (Some (page + int j))) \<Longrightarrow>
   Suc j = length (fst (searchPullRequests_loop fuel api labels author excludePRs limit
                          perPage pullRequests page))"
proof (induction fuel arbitrary: pullRequests page j)
  case 0
  then show ?case by simp
next
  case (Suc fuel)
  show ?case
  proof (cases j)
    case 0
    with Suc.prems show ?thesis
      by (auto simp: Let_def case_prod_beta page_ends_listing_def split: sum.splits if_splits)
  next
    case (Suc j')
    with Suc.prems Suc.IH[of j' _ "page + 1"] show ?thesis
      by (auto simp: Let_def case_prod_beta add.assoc split: sum.splits if_splits)
  qed
qed

subsection \<open>The array returned by a loop is what its requests collected, in order\<close>

lemma listDeployments_loop_collected:
  "snd (listDeployments_loop api limit perPage deployments page) = Inr r \<Longrightarrow>
   r = deployments @
       concat (map (listDeployments_items api)
                 (fst (listDeployments_loop api limit perPage deployments page)))"
proof (induction api limit perPage deployments page rule: listDeployments_loop.induct)
  case (1 api limit perPage deployments page)
  then show ?case
    by (auto simp: listDeployments_loop.simps[of api limit perPage deployments page]
          listDeployments_items_def
          split: sum.splits prod.splits if_splits)
qed

lemma listAllBranches_loop_collected:
  "snd (listAllBranches_loop api limit perPage branches page) = Inr r \<Longrightarrow>
   r = branches @
       concat (map (\<lambda>c. map branch_name (listBranches_items api c))
                 (fst (listAllBranches_loop api limit perPage branches page)))"
proof (induction api limit perPage branches page rule: listAllBranches_loop.induct)
  case (1 api limit perPage branches page)
  then show ?case
    by (auto simp: listAllBranches_loop.simps[of api limit perPage branches page]
          listBranches_items_def
          split: sum.splits prod.splits if_splits)
qed

lemma findPRsWithLabels_loop_collected:
  "snd (findPRsWithLabels_loop fuel api labels excludePRs limit perPage pullRequests page) =
     Some (Inr r) \<Longrightarrow>
   r = pullRequests @
       concat (map (\<lambda>c. filter (findPRsWithLabels_filter labels excludePRs)
                          (pullsList_items api c))
                 (fst (findPRsWithLabels_loop fuel api labels excludePRs limit perPage
                         pullRequests page)))"
proof (induction fuel arbitrary: pullRequests page)
  case 0
  then show ?case by simp
next
  case (Suc fuel)
  from Suc.prems
    Suc.IH[of "pullRequests @ filter (findPRsWithLabels_filter labels excludePRs)
                 (projr (api perPage (Some page)))" "page + 1"]
  show ?case
    by (auto simp: Let_def case_prod_beta pullsList_items_def split: sum.splits if_splits)
qed

lemma searchPullRequests_loop_collected:
  "snd (searchPullRequests_loop fuel api labels author excludePRs limit perPage pullRequests
          page) = Some (Inr r) \<Longrightarrow>
   r = pullRequests @
       concat (map (\<lambda>c. filter (searchPullRequests_filter labels author excludePRs)
                          (pullsList_items api c))
                 (fst (searchPullRequests_loop fuel api labels author excludePRs limit perPage
                         pullRequests page)))"
proof (induction fuel arbitrary: pullRequests page)
  case 0
  then show ?case by simp
next
  case (Suc fuel)
  from Suc.prems
    Suc.IH[of "pullRequests @ filter (searchPullRequests_filter labels author excludePRs)
                 (projr (api perPage (Some page)))" "page + 1"]
  show ?case
    by (auto simp: Let_def case_prod_beta pullsList_items_def split: sum.splits if_splits)
qed

subsection \<open>A full page without a match is followed by the next request\<close>

lemma findPRsWithLabels_loop_first_call:
  "int (length pullRequests) < limit \<Longrightarrow>
   0 < length (fst (findPRsWithLabels_loop (Suc fuel) api labels excludePRs limit perPage
                      pullRequests page))"
  by (auto simp: Let_def case_prod_beta split: sum.splits)

lemma findPRsWithLabels_loop_no_call:
  "\<not> int (length pullRequests) < limit \<Longrightarrow>
   fst (findPRsWithLabels_loop fuel api labels excludePRs limit perPage pullRequests page) = []"
  by (cases fuel) simp_all

lemma findPRsWithLabels_loop_rejected_continues:
  "j < length (fst (findPRsWithLabels_loop fuel api labels excludePRs limit perPage
                      pullRequests page)) \<Longrightarrow>
   api perPage (Some (page + int j)) = Inr data \<Longrightarrow>
   page_is_full perPage (Inr data) \<Longrightarrow>
   filter (findPRsWithLabels_filter labels excludePRs) data = [] \<Longrightarrow>
   Suc j < fuel \<Longrightarrow>
   Suc j < length (fst (findPRsWithLabels_loop fuel api labels excludePRs limit perPage
                          pullRequests page))"
proof (induction fuel arbitrary: pullRequests page j)
  case 0
  then show ?case by simp
next
  case (Suc fuel)
  show ?case
  proof (cases j)
    case 0
    from Suc.prems(5) 0 obtain fuel' where fuel: "fuel = Suc fuel'"
      by (cases fuel) simp_all
    have below: "int (length pullRequests) < limit"
    proof (rule ccontr)
      assume "\<not> int (length pullRequests) < limit"
      then have "fst (findPRsWithLabels_loop (Suc fuel) api labels excludePRs limit perPage
                        pullRequests page) = []"
        by (rule findPRsWithLabels_loop_no_call)
      with Suc.prems(1) show False by simp
    qed
    have step: "fst (findPRsWithLabels_loop (Suc fuel) api labels excludePRs limit perPage
                       pullRequests page) =
                PullsList perPage (Some page) #
                fst (findPRsWithLabels_loop fuel api labels excludePRs limit perPage
                       pullRequests (page + 1))"
      using below Suc.prems(2,3,4) 0
      by (simp add: Let_def case_prod_beta page_is_full_def)
    have "0 < length (fst (findPRsWithLabels_loop fuel api labels excludePRs limit perPage
                             pullRequests (page + 1)))"
      unfolding fuel using below by (rule findPRsWithLabels_loop_first_call)
    with 0 show ?thesis
      by (simp only: step list.size)
  next
    case (Suc j')
    with Suc.prems Suc.IH[of j' _ "page + 1" ] show ?thesis
      by (auto simp: Let_def case_prod_beta add.assoc split: sum.splits if_splits)
  qed
qed

lemma searchPullRequests_loop_first_call:
  "int (length pullRequests) < limit \<Longrightarrow>
   0 < length (fst (searchPullRequests_loop (Suc fuel) api labels author excludePRs limit perPage
                      pullRequests page))"
  by (auto simp: Let_def case_prod_beta split: sum.splits)

lemma searchPullRequests_loop_no_call:
  "\<not> int (length pullRequests) < limit \<Longrightarrow>
   fst (searchPullRequests_loop fuel api labels author excludePRs limit perPage pullRequests page) = []"
  by (cases fuel) simp_all

lemma searchPullRequests_loop_rejected_continues:
  "j < length (fst (searchPullRequests_loop fuel api labels author excludePRs limit perPage
                      pullRequests page)) \<Longrightarrow>
   api perPage (Some (page + int j)) = Inr data \<Longrightarrow>
   page_is_full perPage (Inr data) \<Longrightarrow>
   filter (searchPullRequests_filter labels author excludePRs) data = [] \<Longrightarrow>
   Suc j < fuel \<Longrightarrow>
   Suc j < length (fst (searchPullRequests_loop fuel api labels author excludePRs limit perPage
                          pullRequests page))"
proof (induction fuel arbitrary: pullRequests page j)
  case 0
  then show ?case by simp
next
  case (Suc fuel)
  show ?case
  proof (cases j)
    case 0
    from Suc.prems(5) 0 obtain fuel' where fuel: "fuel = Suc fuel'"
      by (cases fuel) simp_all
    have below: "int (length pullRequests) < limit"
    proof (rule ccontr)
      assume "\<not> int (length pullRequests) < limit"
      then have "fst (searchPullRequests_loop (Suc fuel) api labels author excludePRs limit perPage
                        pullRequests page) = []"
        by (rule searchPullRequests_loop_no_call)
      with Suc.prems(1) show False by simp
    qed
    have step: "fst (searchPullRequests_loop (Suc fuel) api labels author excludePRs limit perPage
                       pullRequests page) =
                PullsList perPage (Some page) #
                fst (searchPullRequests_loop fuel api labels author excludePRs limit perPage
                       pullRequests (page + 1))"
      using below Suc.prems(2,3,4) 0
      by (simp add: Let_def case_prod_beta page_is_full_def)
    have "0 < length (fst (searchPullRequests_loop fuel api labels author excludePRs limit perPage
                             pullRequests (page + 1)))"
      unfolding fuel using below by (rule searchPullRequests_loop_first_call)
    with 0 show ?thesis
      by (simp only: step list.size)
  next
    case (Suc j')
    with Suc.prems Suc.IH[of j' _ "page + 1" ] show ?thesis
      by (auto simp: Let_def case_prod_beta add.assoc split: sum.splits if_splits)
  qed
qed

subsection \<open>A loop whose provider runs out of full pages returns\<close>

lemma findPRsWithLabels_loop_returns:
  "k < fuel \<Longrightarrow>
   \<not> page_is_full perPage (api perPage (Some (page + int k))) \<Longrightarrow>
   snd (findPRsWithLabels_loop fuel api labels excludePRs limit perPage pullRequests page)
     \<noteq> None"
proof (induction fuel arbitrary: pullRequests page k)
  case 0
  then show ?case by simp
next
  case (Suc fuel)
  show ?case
  proof (cases k)
    case 0
    with Suc.prems show ?thesis
      by (auto simp: Let_def case_prod_beta page_is_full_def split: sum.splits if_splits)
  next
    case (Suc k')
    with Suc.prems Suc.IH[of k' "page + 1"] show ?thesis
      by (auto simp: Let_def case_prod_beta add.assoc split: sum.splits if_splits)
  qed
qed

lemma searchPullRequests_loop_returns:
  "k < fuel \<Longrightarrow>
   \<not> page_is_full perPage (api perPage (Some (page + int k))) \<Longrightarrow>
   snd (searchPullRequests_loop fuel api labels author excludePRs limit perPage pullRequests
          page) \<noteq> None"
proof (induction fuel arbitrary: pullRequests page k)
  case 0
  then show ?case by simp
next
  case (Suc fuel)
  show ?case
  proof (cases k)
    case 0
    with Suc.prems show ?thesis
      by (auto simp: Let_def case_prod_beta page_is_full_def split: sum.splits if_splits)
  next
    case (Suc k')
    with Suc.prems Suc.IH[of k' "page + 1"] show ?thesis
      by (auto simp: Let_def case_prod_beta add.assoc split: sum.splits if_splits)
  qed
qed

subsection \<open>The collectors in terms of their loops\<close>

lemma listDeployments_calls:
  "calls (listDeployments api limit_opt) =
     fst (listDeployments_loop api (with_default 100 limit_opt)
            (min (with_default 100 limit_opt) 100) [] 1)"
  by (simp add: listDeployments_def Let_def split: prod.splits sum.splits)

lemma listDeployments_result:
  "result (listDeployments api limit_opt) =
     (case snd (listDeployments_loop api (with_default 100 limit_opt)
                  (min (with_default 100 limit_opt) 100) [] 1) of
        Inl e \<Rightarrow> Inl e
      | Inr deployments \<Rightarrow> Inr (slice0 deployments (with_default 100 limit_opt)))"
  by (simp add: listDeployments_def Let_def split: prod.splits sum.splits)

lemma listAllBranches_calls:
  "calls (listAllBranches api limit_opt) =
     fst (listAllBranches_loop api (with_default 100 limit_opt)
            (min (with_default 100 limit_opt) 100) [] 1)"
  by (simp add: listAllBranches_def Let_def split: prod.splits sum.splits)

lemma listAllBranches_result:
  "result (listAllBranches api limit_opt) =
     (case snd (listAllBranches_loop api (with_default 100 limit_opt)
                  (min (with_default 100 limit_opt) 100) [] 1) of
        Inl e \<Rightarrow> Inl e
      | Inr branches \<Rightarrow> Inr (slice0 branches (with_default 100 limit_opt)))"
  by (simp add: listAllBranches_def Let_def split: prod.splits sum.splits)

lemma findPRsWithLabels_calls:
  "calls (findPRsWithLabels fuel api labels limit_opt excludePRs_opt) =
     (if labels = [] then []
      else fst (findPRsWithLabels_loop fuel api labels (with_default [] excludePRs_opt)
                  (with_default 100 limit_opt) (min (with_default 100 limit_opt * 2) 100)
                  [] 1))"
  by (simp add: findPRsWithLabels_def Let_def split: prod.splits sum.splits option.splits)

lemma findPRsWithLabels_result:
  "result (findPRsWithLabels fuel api labels limit_opt excludePRs_opt) =
     (if labels = [] then Some (Inl (JsError None ''At least one label must be specified''))
      else
        (case snd (findPRsWithLabels_loop fuel api labels (with_default [] excludePRs_opt)
                     (with_default 100 limit_opt) (min (with_default 100 limit_opt * 2) 100)
                     [] 1) of
           None \<Rightarrow> None
         | Some (Inl e) \<Rightarrow> Some (Inl e)
         | Some (Inr pullRequests) \<Rightarrow>
             Some (Inr (slice0 pullRequests (with_default 100 limit_opt)))))"
  by (simp add: findPRsWithLabels_def Let_def split: prod.splits sum.splits option.splits)

lemma searchPullRequests_calls:
  "calls (searchPullRequests fuel api options) =
     fst (searchPullRequests_loop fuel api (with_default [] (opt_labels options))
            (opt_author options) (with_default [] (opt_excludePRs options))
            (with_default 100 (opt_limit options))
            (min (with_default 100 (opt_limit options) * 2) 100) [] 1)"
  by (simp add: searchPullRequests_def Let_def split: prod.splits sum.splits option.splits)

lemma searchPullRequests_result:
  "result (searchPullRequests fuel api options) =
     (case snd (searchPullRequests_loop fuel api (with_default [] (opt_labels options))
                  (opt_author options) (with_default [] (opt_excludePRs options))
                  (with_default 100 (opt_limit options))
                  (min (with_default 100 (opt_limit options) * 2) 100) [] 1) of
        None \<Rightarrow> None
      | Some (Inl e) \<Rightarrow> Some (Inl e)
      | Some (Inr pullRequests) \<Rightarrow>
          Some (Inr (slice0 pullRequests (with_default 100 (opt_limit options)))))"
  by (simp add: searchPullRequests_def Let_def split: prod.splits sum.splits option.splits)

lemma slice0_take: "0 \<le> limit \<Longrightarrow> slice0 xs limit = take (nat limit) xs"
  by (simp add: slice0_def)

lemma length_slice0: "0 \<le> limit \<Longrightarrow> int (length (slice0 xs limit)) \<le> limit"
  by (simp add: slice0_def)

section \<open>The example runs\<close>

lemma run_five_deployments_limit_3:
  "listDeployments five_deployments (Some 3) =
     \<lparr>calls = [ReposListDeployments 3 1], infos = [], result = Inr [1, 2, 3]\<rparr>"
  by (simp add: listDeployments_def with_default_def listDeployments_loop.simps
        five_deployments_def slice0_def)

lemma run_five_deployments_default:
  "listDeployments five_deployments None =
     \<lparr>calls = [ReposListDeployments 100 1], infos = [], result = Inr [1, 2, 3, 4, 5]\<rparr>"
  by (simp add: listDeployments_def with_default_def listDeployments_loop.simps
        five_deployments_def slice0_def)

lemma run_two_branches_limit_1:
  "listAllBranches two_branches (Some 1) =
     \<lparr>calls = [ReposListBranches 1 1], infos = [], result = Inr [''main'']\<rparr>"
  by (simp add: listAllBranches_def with_default_def listAllBranches_loop.simps
        two_branches_def slice0_def)

lemma run_two_branches_default:
  "listAllBranches two_branches None =
     \<lparr>calls = [ReposListBranches 100 1], infos = [],
      result = Inr [''main'', ''develop'']\<rparr>"
  by (simp add: listAllBranches_def with_default_def listAllBranches_loop.simps
        two_branches_def slice0_def)

lemma run_find_bug_limit_1:
  "findPRsWithLabels 3 pulls_in_two_pages [''bug''] (Some 1) None =
     \<lparr>calls = [PullsList 2 (Some 1), PullsList 2 (Some 2)],
      infos = [SearchingForPRsWithLabels [''bug''], FoundPRsMatching 1],
      result = Some (Inr [pr_example 3 [''bug'']])\<rparr>"
  by (simp add: findPRsWithLabels_def with_default_def numeral_3_eq_3 pulls_in_two_pages_def
        findPRsWithLabels_filter_def pr_example_def slice0_def)

lemma run_search_bug_limit_1:
  "searchPullRequests 3 pulls_in_two_pages search_bug_limit_1 =
     \<lparr>calls = [PullsList 2 (Some 1), PullsList 2 (Some 2)], infos = [],
      result = Some (Inr [pr_example 3 [''bug'']])\<rparr>"
  by (simp add: searchPullRequests_def search_bug_limit_1_def with_default_def numeral_3_eq_3
        pulls_in_two_pages_def searchPullRequests_filter_def pr_example_def slice0_def)

lemma search_bug_limit_1_sel:
  "opt_labels search_bug_limit_1 = Some [''bug'']"
  "opt_author search_bug_limit_1 = None"
  "opt_limit search_bug_limit_1 = Some 1"
  "opt_excludePRs search_bug_limit_1 = None"
  by (simp_all add: search_bug_limit_1_def)

section \<open>Claims about the paginated collectors\<close>

text \<open>
  C1, amended. In every run of a paginated listing operation the requests
  are the pages 1, 2, 3, ... in this order, all with one page size, which is never derived
  from the number of items still needed. For \<^verbatim>\<open>listDeployments\<close> and
  \<^verbatim>\<open>listAllBranches\<close> the page size is \<open>min limit 100\<close>; for \<^verbatim>\<open>findPRsWithLabels\<close>
  and \<^verbatim>\<open>searchPullRequests\<close>, which fetch more than needed because they filter, it is
  \<open>min (limit * 2) 100\<close>. An absent limit is 100.
\<close>

theorem page_size_is_fixed_per_run:
  "calls (listDeployments api_d limit_d) =
     map (\<lambda>i. ReposListDeployments (min (with_default 100 limit_d) 100) (1 + int i))
       [0..<length (calls (listDeployments api_d limit_d))]
   \<and> calls (listAllBranches api_b limit_b) =
     map (\<lambda>i. ReposListBranches (min (with_default 100 limit_b) 100) (1 + int i))
       [0..<length (calls (listAllBranches api_b limit_b))]
   \<and> calls (findPRsWithLabels fuel api_p labels limit_opt excludePRs_opt) =
     map (\<lambda>i. PullsList (min (with_default 100 limit_opt * 2) 100) (Some (1 + int i)))
       [0..<length (calls (findPRsWithLabels fuel api_p labels limit_opt excludePRs_opt))]
   \<and> calls (searchPullRequests fuel api_s options) =
     map (\<lambda>i. PullsList (min (with_default 100 (opt_limit options) * 2) 100)
                (Some (1 + int i)))
       [0..<length (calls (searchPullRequests fuel api_s options))]"
proof -
  have d: "calls (listDeployments api_d limit_d) =
     map (\<lambda>i. ReposListDeployments (min (with_default 100 limit_d) 100) (1 + int i))
       [0..<length (calls (listDeployments api_d limit_d))]"
    unfolding listDeployments_calls by (rule listDeployments_loop_calls)
  have b: "calls (listAllBranches api_b limit_b) =
     map (\<lambda>i. ReposListBranches (min (with_default 100 limit_b) 100) (1 + int i))
       [0..<length (calls (listAllBranches api_b limit_b))]"
    unfolding listAllBranches_calls by (rule listAllBranches_loop_calls)
  have f: "calls (findPRsWithLabels fuel api_p labels limit_opt excludePRs_opt) =
     map (\<lambda>i. PullsList (min (with_default 100 limit_opt * 2) 100) (Some (1 + int i)))
       [0..<length (calls (findPRsWithLabels fuel api_p labels limit_opt excludePRs_opt))]"
  proof (cases "labels = []")
    case True
    then show ?thesis by (simp add: findPRsWithLabels_calls)
  next
    case False
    then show ?thesis
      unfolding findPRsWithLabels_calls if_not_P[OF False]
      by (intro findPRsWithLabels_loop_calls)
  qed
  have s: "calls (searchPullRequests fuel api_s options) =
     map (\<lambda>i. PullsList (min (with_default 100 (opt_limit options) * 2) 100)
                (Some (1 + int i)))
       [0..<length (calls (searchPullRequests fuel api_s options))]"
    unfolding searchPullRequests_calls by (rule searchPullRequests_loop_calls)
  from d b f s show ?thesis by (intro conjI)
qed

theorem page_size_is_fixed_per_run_witness:
  "calls (listDeployments five_deployments (Some 3)) = [ReposListDeployments 3 1]
   \<and> calls (listAllBranches two_branches (Some 1)) = [ReposListBranches 1 1]
   \<and> calls (findPRsWithLabels 3 pulls_in_two_pages [''bug''] (Some 1) None) =
       [PullsList 2 (Some 1), PullsList 2 (Some 2)]
   \<and> calls (searchPullRequests 3 pulls_in_two_pages search_bug_limit_1) =
       [PullsList 2 (Some 1), PullsList 2 (Some 2)]"
proof -
  have n: "length (calls (listDeployments five_deployments (Some 3))) = 1"
    "length (calls (listAllBranches two_branches (Some 1))) = 1"
    "length (calls (findPRsWithLabels 3 pulls_in_two_pages [''bug''] (Some 1) None)) = 2"
    "length (calls (searchPullRequests 3 pulls_in_two_pages search_bug_limit_1)) = 2"
    by (simp_all add: run_five_deployments_limit_3 run_two_branches_limit_1
          run_find_bug_limit_1 run_search_bug_limit_1)
  from page_size_is_fixed_per_run[of five_deployments "Some 3" two_branches "Some 1" 3
      pulls_in_two_pages "[''bug'']" "Some 1" None pulls_in_two_pages search_bug_limit_1]
  show ?thesis
    unfolding n by (simp add: with_default_def search_bug_limit_1_sel numeral_2_eq_2)
qed

text \<open>
  The claim as written fails for \<^verbatim>\<open>findPRsWithLabels\<close>: with limit 10 the page size
  requested is 20, not \<open>min 10 100\<close>.
\<close>

theorem page_size_counterexample:
  "calls (findPRsWithLabels 1 no_pulls [''bug''] (Some 10) None) = [PullsList 20 (Some 1)]
   \<and> min (10::int) 100 \<noteq> 20"
  by (simp add: findPRsWithLabels_calls with_default_def no_pulls_def)

text \<open>
  C2. In every run, a request that was answered by an empty page, or by a page with
  fewer raw items than the page size, is the last request of the run. The test is on the
  raw page: when \<^verbatim>\<open>findPRsWithLabels\<close> or \<^verbatim>\<open>searchPullRequests\<close> receives a full page
  of which the filter keeps nothing, the next page is requested (as long as a round is
  left to run).
\<close>

theorem short_page_is_the_last_request:
  "(jd < length (calls (listDeployments api_d limit_d)) \<and>
      page_ends_listing (min (with_default 100 limit_d) 100)
        (api_d (min (with_default 100 limit_d) 100) (1 + int jd))
      \<longrightarrow> Suc jd = length (calls (listDeployments api_d limit_d)))
   \<and> (jb < length (calls (listAllBranches api_b limit_b)) \<and>
      page_ends_listing (min (with_default 100 limit_b) 100)
        (api_b (min (with_default 100 limit_b) 100) (1 + int jb))
      \<longrightarrow> Suc jb = length (calls (listAllBranches api_b limit_b)))
   \<and> (jp < length (calls (findPRsWithLabels fuel api_p labels limit_opt excludePRs_opt)) \<and>
      page_ends_listing (min (with_default 100 limit_opt * 2) 100)
        (api_p (min (with_default 100 limit_opt * 2) 100) (Some (1 + int jp)))
      \<longrightarrow> Suc jp = length (calls (findPRsWithLabels fuel api_p labels limit_opt excludePRs_opt)))
   \<and> (js < length (calls (searchPullRequests fuel api_s options)) \<and>
      page_ends_listing (min (with_default 100 (opt_limit options) * 2) 100)
        (api_s (min (with_default 100 (opt_limit options) * 2) 100) (Some (1 + int js)))
      \<longrightarrow> Suc js = length (calls (searchPullRequests fuel api_s options)))
   \<and> (kp < length (calls (findPRsWithLabels fuel api_p labels limit_opt excludePRs_opt)) \<and>
      api_p (min (with_default 100 limit_opt * 2) 100) (Some (1 + int kp)) = Inr data_p \<and>
      page_is_full (min (with_default 100 limit_opt * 2) 100) (Inr data_p) \<and>
      filter (findPRsWithLabels_filter labels (with_default [] excludePRs_opt)) data_p = [] \<and>
      Suc kp < fuel
      \<longrightarrow> Suc kp < length (calls (findPRsWithLabels fuel api_p labels limit_opt excludePRs_opt)))
   \<and> (ks < length (calls (searchPullRequests fuel api_s options)) \<and>
      api_s (min (with_default 100 (opt_limit options) * 2) 100) (Some (1 + int ks)) = Inr data_s \<and>
      page_is_full (min (with_default 100 (opt_limit options) * 2) 100) (Inr data_s) \<and>
      filter (searchPullRequests_filter (with_default [] (opt_labels options))
                (opt_author options) (with_default [] (opt_excludePRs options))) data_s = [] \<and>
      Suc ks < fuel
      \<longrightarrow> Suc ks < length (calls (searchPullRequests fuel api_s options)))"
proof (intro conjI impI; elim conjE)
  assume "jd < length (calls (listDeployments api_d limit_d))"
    and "page_ends_listing (min (with_default 100 limit_d) 100)
        (api_d (min (with_default 100 limit_d) 100) (1 + int jd))"
  then show "Suc jd = length (calls (listDeployments api_d limit_d))"
    unfolding listDeployments_calls by (rule listDeployments_loop_short_last)
next
  assume "jb < length (calls (listAllBranches api_b limit_b))"
    and "page_ends_listing (min (with_default 100 limit_b) 100)
        (api_b (min (with_default 100 limit_b) 100) (1 + int jb))"
  then show "Suc jb = length (calls (listAllBranches api_b limit_b))"
    unfolding listAllBranches_calls by (rule listAllBranches_loop_short_last)
next
  assume "jp < length (calls (findPRsWithLabels fuel api_p labels limit_opt excludePRs_opt))"
    and "page_ends_listing (min (with_default 100 limit_opt * 2) 100)
        (api_p (min (with_default 100 limit_opt * 2) 100) (Some (1 + int jp)))"
  then show "Suc jp = length (calls (findPRsWithLabels fuel api_p labels limit_opt excludePRs_opt))"
    unfolding findPRsWithLabels_calls
    by (cases "labels = []") (simp_all add: findPRsWithLabels_loop_short_last)
next
  assume "js < length (calls (searchPullRequests fuel api_s options))"
    and "page_ends_listing (min (with_default 100 (opt_limit options) * 2) 100)
        (api_s (min (with_default 100 (opt_limit options) * 2) 100) (Some (1 + int js)))"
  then show "Suc js = length (calls (searchPullRequests fuel api_s options))"
    unfolding searchPullRequests_calls by (rule searchPullRequests_loop_short_last)
next
  assume "kp < length (calls (findPRsWithLabels fuel api_p labels limit_opt excludePRs_opt))"
    and "api_p (min (with_default 100 limit_opt * 2) 100) (Some (1 + int kp)) = Inr data_p"
    and "page_is_full (min (with_default 100 limit_opt * 2) 100) (Inr data_p)"
    and "filter (findPRsWithLabels_filter labels (with_default [] excludePRs_opt)) data_p = []"
    and "Suc kp < fuel"
  then show "Suc kp < length (calls (findPRsWithLabels fuel api_p labels limit_opt excludePRs_opt))"
    unfolding findPRsWithLabels_calls
    by (cases "labels = []") (simp_all add: findPRsWithLabels_loop_rejected_continues)
next
  assume "ks < length (calls (searchPullRequests fuel api_s options))"
    and "api_s (min (with_default 100 (opt_limit options) * 2) 100) (Some (1 + int ks)) = Inr data_s"
    and "page_is_full (min (with_default 100 (opt_limit options) * 2) 100) (Inr data_s)"
    and "filter (searchPullRequests_filter (with_default [] (opt_labels options))
                (opt_author options) (with_default [] (opt_excludePRs options))) data_s = []"
    and "Suc ks < fuel"
  then show "Suc ks < length (calls (searchPullRequests fuel api_s options))"
    unfolding searchPullRequests_calls by (rule searchPullRequests_loop_rejected_continues)
qed

theorem short_page_is_the_last_request_witness:
  "page_ends_listing 100 (five_deployments 100 1)
   \<and> length (calls (listDeployments five_deployments None)) = 1
   \<and> page_ends_listing 100 (two_branches 100 1)
   \<and> length (calls (listAllBranches two_branches None)) = 1
   \<and> page_is_full 2 (pulls_in_two_pages 2 (Some 1))
   \<and> filter (findPRsWithLabels_filter [''bug''] []) [pr_example 1 [''docs''], pr_example 2 []]
       = []
   \<and> filter (searchPullRequests_filter [''bug''] None [])
         [pr_example 1 [''docs''], pr_example 2 []] = []
   \<and> page_ends_listing 2 (pulls_in_two_pages 2 (Some 2))
   \<and> length (calls (findPRsWithLabels 3 pulls_in_two_pages [''bug''] (Some 1) None)) = 2
   \<and> length (calls (searchPullRequests 3 pulls_in_two_pages search_bug_limit_1)) = 2"
  using short_page_is_the_last_request
    [where jd = 0 and api_d = five_deployments and limit_d = None
       and jb = 0 and api_b = two_branches and limit_b = None
       and jp = 1 and kp = 0 and fuel = 3 and api_p = pulls_in_two_pages
       and labels = "[''bug'']" and limit_opt = "Some 1" and excludePRs_opt = None
       and data_p = "[pr_example 1 [''docs''], pr_example 2 []]"
       and js = 1 and ks = 0 and api_s = pulls_in_two_pages
       and options = search_bug_limit_1
       and data_s = "[pr_example 1 [''docs''], pr_example 2 []]"]
  by (simp add: run_five_deployments_default run_two_branches_default run_find_bug_limit_1
        run_search_bug_limit_1 page_ends_listing_def page_is_full_def five_deployments_def
        two_branches_def pulls_in_two_pages_def findPRsWithLabels_filter_def
        searchPullRequests_filter_def pr_example_def)

text \<open>
  C3. For a limit that is not negative, the array a collector returns has at most limit
  items: it is the first limit items of everything the run collected, that is of the pages
  it received, in the order of the requests, mapped or filtered as the collector does.
  \<^verbatim>\<open>listDeployments\<close> and \<^verbatim>\<open>listAllBranches\<close> always return or throw;
  \<^verbatim>\<open>findPRsWithLabels\<close> and \<^verbatim>\<open>searchPullRequests\<close> return or throw within \<open>fuel\<close>
  rounds when one of the first \<open>fuel\<close> pages is not a full page.
\<close>

theorem result_is_truncated_to_limit:
  "(0 \<le> with_default 100 limit_d \<and> result (listDeployments api_d limit_d) = Inr ds \<longrightarrow>
      int (length ds) \<le> with_default 100 limit_d \<and>
      ds = take (nat (with_default 100 limit_d))
             (concat (map (listDeployments_items api_d)
                        (calls (listDeployments api_d limit_d)))))
   \<and> (0 \<le> with_default 100 limit_b \<and> result (listAllBranches api_b limit_b) = Inr bs \<longrightarrow>
      int (length bs) \<le> with_default 100 limit_b \<and>
      bs = take (nat (with_default 100 limit_b))
             (concat (map (\<lambda>c. map branch_name (listBranches_items api_b c))
                        (calls (listAllBranches api_b limit_b)))))
   \<and> (0 \<le> with_default 100 limit_opt \<and>
      result (findPRsWithLabels fuel api_p labels limit_opt excludePRs_opt) = Some (Inr ps)
      \<longrightarrow>
      int (length ps) \<le> with_default 100 limit_opt \<and>
      ps = take (nat (with_default 100 limit_opt))
             (concat (map (\<lambda>c. filter (findPRsWithLabels_filter labels
                                          (with_default [] excludePRs_opt))
                                (pullsList_items api_p c))
                        (calls (findPRsWithLabels fuel api_p labels limit_opt
                                  excludePRs_opt)))))
   \<and> (0 \<le> with_default 100 (opt_limit options) \<and>
      result (searchPullRequests fuel api_s options) = Some (Inr qs) \<longrightarrow>
      int (length qs) \<le> with_default 100 (opt_limit options) \<and>
      qs = take (nat (with_default 100 (opt_limit options)))
             (concat (map (\<lambda>c. filter (searchPullRequests_filter
                                          (with_default [] (opt_labels options))
                                          (opt_author options)
                                          (with_default [] (opt_excludePRs options)))
                                (pullsList_items api_s c))
                        (calls (searchPullRequests fuel api_s options)))))
   \<and> (k < fuel \<and>
      \<not> page_is_full (min (with_default 100 limit_opt * 2) 100)
          (api_p (min (with_default 100 limit_opt * 2) 100) (Some (1 + int k)))
      \<longrightarrow> result (findPRsWithLabels fuel api_p labels limit_opt excludePRs_opt) \<noteq> None)
   \<and> (k < fuel \<and>
      \<not> page_is_full (min (with_default 100 (opt_limit options) * 2) 100)
          (api_s (min (with_default 100 (opt_limit options) * 2) 100) (Some (1 + int k)))
      \<longrightarrow> result (searchPullRequests fuel api_s options) \<noteq> None)"
proof (intro conjI impI; elim conjE)
  assume limit: "0 \<le> with_default 100 limit_d"
  assume "result (listDeployments api_d limit_d) = Inr ds"
  then obtain acc where
    acc: "snd (listDeployments_loop api_d (with_default 100 limit_d)
                 (min (with_default 100 limit_d) 100) [] 1) = Inr acc"
    and ds: "ds = slice0 acc (with_default 100 limit_d)"
    by (auto simp: listDeployments_result split: sum.splits)
  from listDeployments_loop_collected[OF acc] ds limit
  show "ds = take (nat (with_default 100 limit_d))
               (concat (map (listDeployments_items api_d)
                          (calls (listDeployments api_d limit_d))))"
    by (simp add: listDeployments_calls slice0_take)
  from ds limit show "int (length ds) \<le> with_default 100 limit_d"
    by (simp add: length_slice0)
next
  assume limit: "0 \<le> with_default 100 limit_b"
  assume "result (listAllBranches api_b limit_b) = Inr bs"
  then obtain acc where
    acc: "snd (listAllBranches_loop api_b (with_default 100 limit_b)
                 (min (with_default 100 limit_b) 100) [] 1) = Inr acc"
    and bs: "bs = slice0 acc (with_default 100 limit_b)"
    by (auto simp: listAllBranches_result split: sum.splits)
  from listAllBranches_loop_collected[OF acc] bs limit
  show "bs = take (nat (with_default 100 limit_b))
               (concat (map (\<lambda>c. map branch_name (listBranches_items api_b c))
                          (calls (listAllBranches api_b limit_b))))"
    by (simp add: listAllBranches_calls slice0_take)
  from bs limit show "int (length bs) \<le> with_default 100 limit_b"
    by (simp add: length_slice0)
next
  assume limit: "0 \<le> with_default 100 limit_opt"
  assume res: "result (findPRsWithLabels fuel api_p labels limit_opt excludePRs_opt) =
                 Some (Inr ps)"
  then have labels: "labels \<noteq> []"
    by (auto simp: findPRsWithLabels_result)
  with res obtain acc where
    acc: "snd (findPRsWithLabels_loop fuel api_p labels (with_default [] excludePRs_opt)
                 (with_default 100 limit_opt) (min (with_default 100 limit_opt * 2) 100)
                 [] 1) = Some (Inr acc)"
    and ps: "ps = slice0 acc (with_default 100 limit_opt)"
    by (auto simp: findPRsWithLabels_result split: sum.splits option.splits)
  from findPRsWithLabels_loop_collected[OF acc] ps limit labels
  show "ps = take (nat (with_default 100 limit_opt))
               (concat (map (\<lambda>c. filter (findPRsWithLabels_filter labels
                                            (with_default [] excludePRs_opt))
                                  (pullsList_items api_p c))
                          (calls (findPRsWithLabels fuel api_p labels limit_opt
                                    excludePRs_opt))))"
    by (simp add: findPRsWithLabels_calls slice0_take)
  from ps limit show "int (length ps) \<le> with_default 100 limit_opt"
    by (simp add: length_slice0)
next
  assume limit: "0 \<le> with_default 100 (opt_limit options)"
  assume "result (searchPullRequests fuel api_s options) = Some (Inr qs)"
  then obtain acc where
    acc: "snd (searchPullRequests_loop fuel api_s (with_default [] (opt_labels options))
                 (opt_author options) (with_default [] (opt_excludePRs options))
                 (with_default 100 (opt_limit options))
                 (min (with_default 100 (opt_limit options) * 2) 100) [] 1) = Some (Inr acc)"
    and qs: "qs = slice0 acc (with_default 100 (opt_limit options))"
    by (auto simp: searchPullRequests_result split: sum.splits option.splits)
  from searchPullRequests_loop_collected[OF acc] qs limit
  show "qs = take (nat (with_default 100 (opt_limit options)))
               (concat (map (\<lambda>c. filter (searchPullRequests_filter
                                            (with_default [] (opt_labels options))
                                            (opt_author options)
                                            (with_default [] (opt_excludePRs options)))
                                  (pullsList_items api_s c))
                          (calls (searchPullRequests fuel api_s options))))"
    by (simp add: searchPullRequests_calls slice0_take)
  from qs limit show "int (length qs) \<le> with_default 100 (opt_limit options)"
    by (simp add: length_slice0)
next
  assume "k < fuel"
    and "\<not> page_is_full (min (with_default 100 limit_opt * 2) 100)
            (api_p (min (with_default 100 limit_opt * 2) 100) (Some (1 + int k)))"
  then have "snd (findPRsWithLabels_loop fuel api_p labels (with_default [] excludePRs_opt)
                    (with_default 100 limit_opt) (min (with_default 100 limit_opt * 2) 100)
                    [] 1) \<noteq> None"
    by (rule findPRsWithLabels_loop_returns)
  then show "result (findPRsWithLabels fuel api_p labels limit_opt excludePRs_opt) \<noteq> None"
    by (auto simp: findPRsWithLabels_result split: sum.splits option.splits)
next
  assume "k < fuel"
    and "\<not> page_is_full (min (with_default 100 (opt_limit options) * 2) 100)
            (api_s (min (with_default 100 (opt_limit options) * 2) 100) (Some (1 + int k)))"
  then have "snd (searchPullRequests_loop fuel api_s (with_default [] (opt_labels options))
                    (opt_author options) (with_default [] (opt_excludePRs options))
                    (with_default 100 (opt_limit options))
                    (min (with_default 100 (opt_limit options) * 2) 100) [] 1) \<noteq> None"
    by (rule searchPullRequests_loop_returns)
  then show "result (searchPullRequests fuel api_s options) \<noteq> None"
    by (auto simp: searchPullRequests_result split: sum.splits option.splits)
qed

theorem result_is_truncated_to_limit_witness:
  "result (listDeployments five_deployments (Some 3)) = Inr [1, 2, 3]
   \<and> [1, 2, 3] =
       take 3 (concat (map (listDeployments_items five_deployments)
                         (calls (listDeployments five_deployments (Some 3)))))
   \<and> result (listAllBranches two_branches (Some 1)) = Inr [''main'']
   \<and> [''main''] =
       take 1 (concat (map (\<lambda>c. map branch_name (listBranches_items two_branches c))
                         (calls (listAllBranches two_branches (Some 1)))))
   \<and> result (findPRsWithLabels 3 pulls_in_two_pages [''bug''] (Some 1) None) =
       Some (Inr [pr_example 3 [''bug'']])
   \<and> [pr_example 3 [''bug'']] =
       take 1 (concat (map (\<lambda>c. filter (findPRsWithLabels_filter [''bug''] [])
                                   (pullsList_items pulls_in_two_pages c))
                         (calls (findPRsWithLabels 3 pulls_in_two_pages [''bug''] (Some 1)
                                   None))))
   \<and> result (searchPullRequests 3 pulls_in_two_pages search_bug_limit_1) =
       Some (Inr [pr_example 3 [''bug'']])
   \<and> \<not> page_is_full 2 (pulls_in_two_pages 2 (Some 2))"
  using result_is_truncated_to_limit
    [where limit_d = "Some 3" and api_d = five_deployments and ds = "[1, 2, 3]"
       and limit_b = "Some 1" and api_b = two_branches and bs = "[''main'']"
       and fuel = 3 and api_p = pulls_in_two_pages and labels = "[''bug'']"
       and limit_opt = "Some 1" and excludePRs_opt = None
       and ps = "[pr_example 3 [''bug'']]"
       and api_s = pulls_in_two_pages and options = search_bug_limit_1
       and qs = "[pr_example 3 [''bug'']]" and k = 1]
  by (simp add: run_five_deployments_limit_3 run_two_branches_limit_1 run_find_bug_limit_1
        run_search_bug_limit_1 page_is_full_def pulls_in_two_pages_def with_default_def
        search_bug_limit_1_sel pullsList_items_def listDeployments_items_def
        listBranches_items_def findPRsWithLabels_filter_def searchPullRequests_filter_def
        pr_example_def five_deployments_def two_branches_def)

text \<open>
  C6. When the provider answers the requests for pages 1, 2 and 3 (of 100 items each)
  with 100, 100 and 37 raw items, and every item passes the filter of the collector, a
  collector called with limit 250 sends exactly these three requests and returns the 237
  items in the order received, none dropped.
\<close>

theorem three_pages_make_237_items:
  "(api_d 100 1 = Inr da \<and> api_d 100 2 = Inr db \<and> api_d 100 3 = Inr dc \<and>
      length da = 100 \<and> length db = 100 \<and> length dc = 37
      \<longrightarrow> listDeployments api_d (Some 250) =
            \<lparr>calls = [ReposListDeployments 100 1, ReposListDeployments 100 2,
                      ReposListDeployments 100 3],
             infos = [], result = Inr (da @ db @ dc)\<rparr>
          \<and> length (da @ db @ dc) = 237)
   \<and> (api_b 100 1 = Inr ba \<and> api_b 100 2 = Inr bb \<and> api_b 100 3 = Inr bc \<and>
      length ba = 100 \<and> length bb = 100 \<and> length bc = 37
      \<longrightarrow> listAllBranches api_b (Some 250) =
            \<lparr>calls = [ReposListBranches 100 1, ReposListBranches 100 2,
                      ReposListBranches 100 3],
             infos = [], result = Inr (map branch_name (ba @ bb @ bc))\<rparr>
          \<and> length (map branch_name (ba @ bb @ bc)) = 237)
   \<and> (api_p 100 (Some 1) = Inr pa \<and> api_p 100 (Some 2) = Inr pb \<and>
      api_p 100 (Some 3) = Inr pc \<and>
      length pa = 100 \<and> length pb = 100 \<and> length pc = 37 \<and> labels \<noteq> [] \<and>
      list_all (findPRsWithLabels_filter labels (with_default [] excludePRs_opt))
        (pa @ pb @ pc)
      \<longrightarrow> findPRsWithLabels (Suc (Suc (Suc fuel))) api_p labels (Some 250) excludePRs_opt =
            \<lparr>calls = [PullsList 100 (Some 1), PullsList 100 (Some 2), PullsList 100 (Some 3)],
             infos = [SearchingForPRsWithLabels labels, FoundPRsMatching 237],
             result = Some (Inr (pa @ pb @ pc))\<rparr>
          \<and> length (pa @ pb @ pc) = 237)
   \<and> (api_s 100 (Some 1) = Inr qa \<and> api_s 100 (Some 2) = Inr qb \<and>
      api_s 100 (Some 3) = Inr qc \<and>
      length qa = 100 \<and> length qb = 100 \<and> length qc = 37 \<and>
      opt_limit options = Some 250 \<and>
      list_all (searchPullRequests_filter (with_default [] (opt_labels options))
                  (opt_author options) (with_default [] (opt_excludePRs options)))
        (qa @ qb @ qc)
      \<longrightarrow> searchPullRequests (Suc (Suc (Suc fuel))) api_s options =
            \<lparr>calls = [PullsList 100 (Some 1), PullsList 100 (Some 2), PullsList 100 (Some 3)],
             infos = [], result = Some (Inr (qa @ qb @ qc))\<rparr>
          \<and> length (qa @ qb @ qc) = 237)"
proof (intro conjI impI; elim conjE)
  assume "api_d 100 1 = Inr da" "api_d 100 2 = Inr db" "api_d 100 3 = Inr dc"
    and "length da = 100" "length db = 100" "length dc = 37"
  then show "listDeployments api_d (Some 250) =
       \<lparr>calls = [ReposListDeployments 100 1, ReposListDeployments 100 2,
                 ReposListDeployments 100 3],
        infos = [], result = Inr (da @ db @ dc)\<rparr>"
    and "length (da @ db @ dc) = 237"
    by (simp_all add: listDeployments_def with_default_def slice0_def
          listDeployments_loop.simps[of api_d 250 100 "[]" 1]
          listDeployments_loop.simps[of api_d 250 100 da 2]
          listDeployments_loop.simps[of api_d 250 100 "da @ db" 3])
next
  assume "api_b 100 1 = Inr ba" "api_b 100 2 = Inr bb" "api_b 100 3 = Inr bc"
    and "length ba = 100" "length bb = 100" "length bc = 37"
  then show "listAllBranches api_b (Some 250) =
       \<lparr>calls = [ReposListBranches 100 1, ReposListBranches 100 2,
                 ReposListBranches 100 3],
        infos = [], result = Inr (map branch_name (ba @ bb @ bc))\<rparr>"
    and "length (map branch_name (ba @ bb @ bc)) = 237"
    by (simp_all add: listAllBranches_def with_default_def slice0_def
          listAllBranches_loop.simps[of api_b 250 100 "[]" 1]
          listAllBranches_loop.simps[of api_b 250 100 "map branch_name ba" 2]
          listAllBranches_loop.simps[of api_b 250 100
            "map branch_name ba @ map branch_name bb" 3])
next
  assume "api_p 100 (Some 1) = Inr pa" "api_p 100 (Some 2) = Inr pb"
    "api_p 100 (Some 3) = Inr pc"
    and "length pa = 100" "length pb = 100" "length pc = 37" "labels \<noteq> []"
    and "list_all (findPRsWithLabels_filter labels (with_default [] excludePRs_opt))
           (pa @ pb @ pc)"
  then show "findPRsWithLabels (Suc (Suc (Suc fuel))) api_p labels (Some 250) excludePRs_opt =
       \<lparr>calls = [PullsList 100 (Some 1), PullsList 100 (Some 2), PullsList 100 (Some 3)],
        infos = [SearchingForPRsWithLabels labels, FoundPRsMatching 237],
        result = Some (Inr (pa @ pb @ pc))\<rparr>"
    and "length (pa @ pb @ pc) = 237"
    by (simp_all add: findPRsWithLabels_def with_default_def slice0_def Let_def
          list_all_iff filter_id_conv[THEN iffD2])
next
  assume "api_s 100 (Some 1) = Inr qa" "api_s 100 (Some 2) = Inr qb"
    "api_s 100 (Some 3) = Inr qc"
    and "length qa = 100" "length qb = 100" "length qc = 37"
    and "opt_limit options = Some 250"
    and "list_all (searchPullRequests_filter (with_default [] (opt_labels options))
                     (opt_author options) (with_default [] (opt_excludePRs options)))
           (qa @ qb @ qc)"
  then show "searchPullRequests (Suc (Suc (Suc fuel))) api_s options =
       \<lparr>calls = [PullsList 100 (Some 1), PullsList 100 (Some 2), PullsList 100 (Some 3)],
        infos = [], result = Some (Inr (qa @ qb @ qc))\<rparr>"
    and "length (qa @ qb @ qc) = 237"
    by (simp_all add: searchPullRequests_def slice0_def Let_def
          list_all_iff filter_id_conv[THEN iffD2] with_default_def[of _ "Some _"])
qed

theorem three_pages_make_237_items_witness:
  "listDeployments deployments_237 (Some 250) =
     \<lparr>calls = [ReposListDeployments 100 1, ReposListDeployments 100 2,
               ReposListDeployments 100 3],
      infos = [], result = Inr ([0..<100] @ [100..<200] @ [200..<237])\<rparr>
   \<and> listAllBranches branches_237 (Some 250) =
     \<lparr>calls = [ReposListBranches 100 1, ReposListBranches 100 2, ReposListBranches 100 3],
      infos = [],
      result = Inr (map branch_name
                      (map branch_example [0..<100] @ map branch_example [100..<200] @
                       map branch_example [200..<237]))\<rparr>
   \<and> findPRsWithLabels (Suc (Suc (Suc 0))) pulls_237 [''bug''] (Some 250) None =
     \<lparr>calls = [PullsList 100 (Some 1), PullsList 100 (Some 2), PullsList 100 (Some 3)],
      infos = [SearchingForPRsWithLabels [''bug''], FoundPRsMatching 237],
      result = Some (Inr (map (\<lambda>i. pr_example (int i) [''bug'']) [0..<100] @
                          map (\<lambda>i. pr_example (int i) [''bug'']) [100..<200] @
                          map (\<lambda>i. pr_example (int i) [''bug'']) [200..<237]))\<rparr>
   \<and> searchPullRequests (Suc (Suc (Suc 0))) pulls_237
       (search_bug_limit_1\<lparr>opt_limit := Some 250\<rparr>) =
     \<lparr>calls = [PullsList 100 (Some 1), PullsList 100 (Some 2), PullsList 100 (Some 3)],
      infos = [],
      result = Some (Inr (map (\<lambda>i. pr_example (int i) [''bug'']) [0..<100] @
                          map (\<lambda>i. pr_example (int i) [''bug'']) [100..<200] @
                          map (\<lambda>i. pr_example (int i) [''bug'']) [200..<237]))\<rparr>"
  using three_pages_make_237_items
    [where api_d = deployments_237 and da = "[0..<100]" and db = "[100..<200]"
       and dc = "[200..<237]"
       and api_b = branches_237 and ba = "map branch_example [0..<100]"
       and bb = "map branch_example [100..<200]" and bc = "map branch_example [200..<237]"
       and api_p = pulls_237 and labels = "[''bug'']" and excludePRs_opt = None and fuel = 0
       and pa = "map (\<lambda>i. pr_example (int i) [''bug'']) [0..<100]"
       and pb = "map (\<lambda>i. pr_example (int i) [''bug'']) [100..<200]"
       and pc = "map (\<lambda>i. pr_example (int i) [''bug'']) [200..<237]"
       and api_s = pulls_237 and options = "search_bug_limit_1\<lparr>opt_limit := Some 250\<rparr>"
       and qa = "map (\<lambda>i. pr_example (int i) [''bug'']) [0..<100]"
       and qb = "map (\<lambda>i. pr_example (int i) [''bug'']) [100..<200]"
       and qc = "map (\<lambda>i. pr_example (int i) [''bug'']) [200..<237]"]
  by (simp add: deployments_237_def branches_237_def pulls_237_def search_bug_limit_1_sel
        with_default_def list.pred_map comp_def list.pred_True findPRsWithLabels_filter_def
        searchPullRequests_filter_def pr_example_def
        del: upt_rec_numeral)

text \<open>
  C7. The filter of \<^verbatim>\<open>findPRsWithLabels\<close> keeps exactly the pull requests whose labels
  include every required label and whose number is not excluded; the filter of
  \<^verbatim>\<open>searchPullRequests\<close> asks in addition for the author, when one is given. When the
  provider answers the first request with a short page, \<^verbatim>\<open>findPRsWithLabels\<close> returns
  the pull requests of that page that pass the filter, in the order of the page, cut to
  the limit. For the page with the label sets {A, B}, {A}, {A, B, C} and the required
  labels A and B these are the first and the third pull request.
\<close>

theorem label_filter_keeps_matching_prs_in_order:
  "(findPRsWithLabels_filter labels excludePRs pr \<longleftrightarrow>
      set labels \<subseteq> label_name ` set (pr_labels pr) \<and> pr_number pr \<notin> set excludePRs)
   \<and> (searchPullRequests_filter labels author excludePRs pr \<longleftrightarrow>
      set labels \<subseteq> label_name ` set (pr_labels pr) \<and> pr_number pr \<notin> set excludePRs \<and>
      (author = None \<or> author = Some [] \<or> pr_login pr = author))
   \<and> (labels \<noteq> [] \<and> 0 < with_default 100 limit_opt \<and>
      api (min (with_default 100 limit_opt * 2) 100) (Some 1) = Inr data \<and>
      data \<noteq> [] \<and> int (length data) < min (with_default 100 limit_opt * 2) 100
      \<longrightarrow> calls (findPRsWithLabels (Suc fuel) api labels limit_opt excludePRs_opt) =
            [PullsList (min (with_default 100 limit_opt * 2) 100) (Some 1)]
          \<and> result (findPRsWithLabels (Suc fuel) api labels limit_opt excludePRs_opt) =
            Some (Inr (take (nat (with_default 100 limit_opt))
                         (filter (\<lambda>pr. set labels \<subseteq> label_name ` set (pr_labels pr) \<and>
                                       pr_number pr \<notin> set (with_default [] excludePRs_opt))
                            data))))"
proof (intro conjI impI; (elim conjE)?)
  show "findPRsWithLabels_filter labels excludePRs pr \<longleftrightarrow>
      set labels \<subseteq> label_name ` set (pr_labels pr) \<and> pr_number pr \<notin> set excludePRs"
    by (auto simp: findPRsWithLabels_filter_def Let_def list_all_iff)
  show "searchPullRequests_filter labels author excludePRs pr \<longleftrightarrow>
      set labels \<subseteq> label_name ` set (pr_labels pr) \<and> pr_number pr \<notin> set excludePRs \<and>
      (author = None \<or> author = Some [] \<or> pr_login pr = author)"
    by (auto simp: searchPullRequests_filter_def list_all_iff split: option.splits)
next
  assume a: "labels \<noteq> []" "0 < with_default 100 limit_opt"
    "api (min (with_default 100 limit_opt * 2) 100) (Some 1) = Inr data"
    "data \<noteq> []" "int (length data) < min (with_default 100 limit_opt * 2) 100"
  have f: "findPRsWithLabels_filter labels (with_default [] excludePRs_opt) =
           (\<lambda>pr. set labels \<subseteq> label_name ` set (pr_labels pr) \<and>
                  pr_number pr \<notin> set (with_default [] excludePRs_opt))"
    by (auto simp: fun_eq_iff findPRsWithLabels_filter_def Let_def list_all_iff)
  from a show "calls (findPRsWithLabels (Suc fuel) api labels limit_opt excludePRs_opt) =
            [PullsList (min (with_default 100 limit_opt * 2) 100) (Some 1)]"
    by (simp add: findPRsWithLabels_calls)
  from a show "result (findPRsWithLabels (Suc fuel) api labels limit_opt excludePRs_opt) =
            Some (Inr (take (nat (with_default 100 limit_opt))
                         (filter (\<lambda>pr. set labels \<subseteq> label_name ` set (pr_labels pr) \<and>
                                       pr_number pr \<notin> set (with_default [] excludePRs_opt))
                            data)))"
    by (simp add: findPRsWithLabels_result f slice0_take)
qed

theorem label_filter_keeps_matching_prs_in_order_witness:
  "calls (findPRsWithLabels (Suc 0) prs_labelled_abc [''A'', ''B''] None None) =
     [PullsList 100 (Some 1)]
   \<and> result (findPRsWithLabels (Suc 0) prs_labelled_abc [''A'', ''B''] None None) =
     Some (Inr [pr_example 1 [''A'', ''B''], pr_example 3 [''A'', ''B'', ''C'']])"
  using label_filter_keeps_matching_prs_in_order
    [where labels = "[''A'', ''B'']" and limit_opt = None and api = prs_labelled_abc
       and data = "[pr_example 1 [''A'', ''B''], pr_example 2 [''A''],
                    pr_example 3 [''A'', ''B'', ''C'']]"
       and fuel = 0 and excludePRs_opt = None]
  by (simp add: prs_labelled_abc_def with_default_def pr_example_def)

section \<open>Claims about validation and error handling\<close>

text \<open>
  C4. With an empty \<^verbatim>\<open>labels\<close> array, \<^verbatim>\<open>findPRsWithLabels\<close> and
  \<^verbatim>\<open>findPullRequestsByLabels\<close> throw the error with the message
  \<^verbatim>\<open>At least one label must be specified\<close> and have sent no request (and logged
  nothing), whatever the provider and the other arguments are.
\<close>

theorem empty_labels_fail_before_any_fetch:
  "findPRsWithLabels fuel api [] limit_opt excludePRs_opt =
     \<lparr>calls = [], infos = [],
      result = Some (Inl (JsError None ''At least one label must be specified''))\<rparr>
   \<and> findPullRequestsByLabels api' (options\<lparr>pso_labels := []\<rparr>) =
     \<lparr>calls = [], infos = [],
      result = Inl (JsError None ''At least one label must be specified'')\<rparr>"
  by (simp add: findPRsWithLabels_def findPullRequestsByLabels_def Let_def)

theorem empty_labels_fail_before_any_fetch_witness:
  "calls (findPRsWithLabels 0 pulls_in_two_pages [] (Some 5) None) = []
   \<and> calls (findPullRequestsByLabels pulls_in_two_pages
        \<lparr>pso_labels = [], pso_limit = None\<rparr>) = []"
  using empty_labels_fail_before_any_fetch
    [where fuel = 0 and api = pulls_in_two_pages and limit_opt = "Some 5"
       and excludePRs_opt = None and api' = pulls_in_two_pages
       and options = "\<lparr>pso_labels = [], pso_limit = None\<rparr>"]
  by simp

text \<open>
  C9. When the fetch of the pull request succeeds, \<^verbatim>\<open>pullRequestHasLabels\<close> with an
  empty \<^verbatim>\<open>labels\<close> array returns \<^verbatim>\<open>true\<close> if \<^verbatim>\<open>requireAll\<close> is \<^verbatim>\<open>true\<close> or
  absent, and \<^verbatim>\<open>false\<close> if it is \<^verbatim>\<open>false\<close>, after exactly one \<^verbatim>\<open>pulls.get\<close> request.
\<close>

theorem empty_labels_every_and_some:
  "api pullNumber = Inr pr \<Longrightarrow>
     pullRequestHasLabels api pullNumber [] None =
       \<lparr>calls = [PullsGet pullNumber], infos = [GettingPullRequest pullNumber],
        result = Inr True\<rparr>
   \<and> pullRequestHasLabels api pullNumber [] (Some True) =
       \<lparr>calls = [PullsGet pullNumber], infos = [GettingPullRequest pullNumber],
        result = Inr True\<rparr>
   \<and> pullRequestHasLabels api pullNumber [] (Some False) =
       \<lparr>calls = [PullsGet pullNumber], infos = [GettingPullRequest pullNumber],
        result = Inr False\<rparr>"
  by (simp add: pullRequestHasLabels_def getPullRequest_def with_default_def Let_def)

theorem empty_labels_every_and_some_witness:
  "pull_labelled_bug 123 = Inr (pr_example 123 [''bug''])
   \<and> result (pullRequestHasLabels pull_labelled_bug 123 [] None) = Inr True
   \<and> result (pullRequestHasLabels pull_labelled_bug 123 [] (Some False)) = Inr False
   \<and> calls (pullRequestHasLabels pull_labelled_bug 123 [] None) = [PullsGet 123]"
  using empty_labels_every_and_some
    [where api = pull_labelled_bug and pullNumber = 123 and pr = "pr_example 123 [''bug'']"]
  by (simp add: pull_labelled_bug_def)

text \<open>
  C10. \<^verbatim>\<open>checkBranchExists\<close> sends one \<^verbatim>\<open>getBranch\<close> request; it returns \<^verbatim>\<open>true\<close>
  when the request succeeds, returns \<^verbatim>\<open>false\<close> exactly when it fails with status 404,
  and throws the same error when it fails with another status or none.
  \<^verbatim>\<open>getBranchProtection\<close> returns the protection data when its request succeeds,
  \<^verbatim>\<open>null\<close> exactly when it fails with status 404, and throws the same error otherwise.
\<close>

theorem branch_lookups_swallow_only_404:
  "calls (checkBranchExists api br) = [ReposGetBranch br]
   \<and> (api br = Inr d \<longrightarrow> result (checkBranchExists api br) = Inr True)
   \<and> (result (checkBranchExists api br) = Inr False
        \<longleftrightarrow> (\<exists>e. api br = Inl e \<and> err_status e = Some 404))
   \<and> (api br = Inl e \<and> err_status e \<noteq> Some 404
        \<longrightarrow> result (checkBranchExists api br) = Inl e)
   \<and> calls (getBranchProtection api' br') = [ReposGetBranchProtection br']
   \<and> (api' br' = Inr d' \<longrightarrow> result (getBranchProtection api' br') = Inr (Some d'))
   \<and> (result (getBranchProtection api' br') = Inr None
        \<longleftrightarrow> (\<exists>e. api' br' = Inl e \<and> err_status e = Some 404))
   \<and> (api' br' = Inl e' \<and> err_status e' \<noteq> Some 404
        \<longrightarrow> result (getBranchProtection api' br') = Inl e')"
  by (auto simp: checkBranchExists_def getBranchProtection_def split: sum.splits if_splits)

theorem branch_lookups_swallow_only_404_witness:
  "result (checkBranchExists branch_lookup ''main'') = Inr True
   \<and> result (checkBranchExists branch_lookup ''gone'') = Inr False
   \<and> result (checkBranchExists branch_lookup ''broken'') =
       Inl (JsError (Some 500) ''Server Error'')
   \<and> result (getBranchProtection branch_lookup ''main'') =
       Inr (Some \<lparr>branch_name = ''main'', branch_protected = True\<rparr>)
   \<and> result (getBranchProtection branch_lookup ''gone'') = Inr None
   \<and> result (getBranchProtection branch_lookup ''broken'') =
       Inl (JsError (Some 500) ''Server Error'')"
  using
    branch_lookups_swallow_only_404
      [where api = branch_lookup and br = "''main''"
         and d = "\<lparr>branch_name = ''main'', branch_protected = True\<rparr>"
         and api' = branch_lookup and br' = "''main''"
         and d' = "\<lparr>branch_name = ''main'', branch_protected = True\<rparr>"]
    branch_lookups_swallow_only_404
      [where api = branch_lookup and br = "''gone''"
         and api' = branch_lookup and br' = "''gone''"]
    branch_lookups_swallow_only_404
      [where api = branch_lookup and br = "''broken''"
         and e = "JsError (Some 500) ''Server Error''"
         and api' = branch_lookup and br' = "''broken''"
         and e' = "JsError (Some 500) ''Server Error''"]
  by (simp add: branch_lookup_def)

section \<open>Claims about the single-page search of comments\<close>

lemma js_includes_iff: "js_includes s t \<longleftrightarrow> (\<exists>p q. s = p @ t @ q)"
proof (induction s)
  case Nil
  show ?case by auto
next
  case (Cons c s)
  show ?case
  proof
    assume "js_includes (c # s) t"
    then consider "take (length t) (c # s) = t" | "js_includes s t" by auto
    then show "\<exists>p q. c # s = p @ t @ q"
    proof cases
      case 1
      then have "c # s = [] @ t @ drop (length t) (c # s)"
        by (metis append_Nil append_take_drop_id)
      then show ?thesis by blast
    next
      case 2
      with Cons.IH obtain p q where "s = p @ t @ q" by blast
      then have "c # s = (c # p) @ t @ q" by simp
      then show ?thesis by blast
    qed
  next
    assume "\<exists>p q. c # s = p @ t @ q"
    then obtain p q where pq: "c # s = p @ t @ q" by blast
    show "js_includes (c # s) t"
    proof (cases p)
      case Nil
      with pq have "take (length t) (c # s) = t" by simp
      then show ?thesis by simp
    next
      case (Cons c' p')
      with pq have "s = p' @ t @ q" by simp
      with Cons.IH have "js_includes s t" by blast
      then show ?thesis by simp
    qed
  qed
qed

lemma comment_body_contains_iff:
  "comment_body_contains toLowerCase (Some t) c \<longleftrightarrow>
     t = [] \<or> (\<exists>b p q. comment_body c = Some b \<and> toLowerCase b = p @ toLowerCase t @ q)"
  by (auto simp: comment_body_contains_def js_includes_iff split: option.splits)

lemma searchComments_result:
  "0 \<le> with_default 100 (cso_limit options) \<Longrightarrow>
   api issueNumber (min (with_default 100 (cso_limit options)) 100) = Inr allComments \<Longrightarrow>
   result (searchComments api toLowerCase newDate issueNumber options) =
     Inr (take (nat (with_default 100 (cso_limit options)))
            (filter (comment_created_before newDate (cso_createdBefore options))
               (filter (comment_created_after newDate (cso_createdAfter options))
                  (filter (comment_by_author (cso_author options))
                     (filter (comment_body_contains toLowerCase (cso_bodyContains options))
                        allComments)))))"
proof -
  assume limit: "0 \<le> with_default 100 (cso_limit options)"
    and page: "api issueNumber (min (with_default 100 (cso_limit options)) 100) =
                 Inr allComments"
  have body: "filter (comment_body_contains toLowerCase (cso_bodyContains options)) xs =
      (case cso_bodyContains options of
         None \<Rightarrow> xs
       | Some bodyContains \<Rightarrow>
           if bodyContains = [] then xs
           else filter (\<lambda>comment.
                  case comment_body comment of
                    None \<Rightarrow> False
                  | Some body \<Rightarrow> js_includes (toLowerCase body) (toLowerCase bodyContains))
                xs)" for xs
    by (cases "cso_bodyContains options") (simp_all add: comment_body_contains_def[abs_def])
  have author: "filter (comment_by_author (cso_author options)) xs =
      (case cso_author options of
         None \<Rightarrow> xs
       | Some author \<Rightarrow>
           if author = [] then xs
           else filter (\<lambda>comment. comment_login comment = Some author) xs)" for xs
    by (cases "cso_author options") (simp_all add: comment_by_author_def[abs_def])
  have after: "filter (comment_created_after newDate (cso_createdAfter options)) xs =
      (case cso_createdAfter options of
         None \<Rightarrow> xs
       | Some createdAfter \<Rightarrow>
           filter (\<lambda>comment. date_less createdAfter (newDate (comment_created_at comment)))
             xs)" for xs
    by (cases "cso_createdAfter options") (simp_all add: comment_created_after_def[abs_def])
  have before: "filter (comment_created_before newDate (cso_createdBefore options)) xs =
      (case cso_createdBefore options of
         None \<Rightarrow> xs
       | Some createdBefore \<Rightarrow>
           filter (\<lambda>comment. date_less (newDate (comment_created_at comment)) createdBefore)
             xs)" for xs
    by (cases "cso_createdBefore options") (simp_all add: comment_created_before_def[abs_def])
  from limit page show ?thesis
    unfolding body author after before
    by (simp add: searchComments_def Let_def slice0_take)
qed

text \<open>
  C8. \<^verbatim>\<open>searchComments\<close> sends exactly one \<^verbatim>\<open>listComments\<close> request, with
  \<open>per_page = min limit 100\<close> and no page number. If it fails, the error is thrown. If
  it succeeds and the limit is not negative, the result is the first limit comments of
  that one page that pass the \<^verbatim>\<open>bodyContains\<close>, \<^verbatim>\<open>author\<close>, \<^verbatim>\<open>createdAfter\<close> and
  \<^verbatim>\<open>createdBefore\<close> filters, applied in this order. A comment passes the body filter
  exactly when it has a body whose lower-casing contains the lower-casing of the text
  searched for as a contiguous block. So the search is insensitive to case: two texts
  with the same lower-casing give the same run, and so do two bodies with the same
  lower-casing. This holds for every function \<open>toLowerCase\<close>, the one of the engine
  included.
\<close>

theorem searchComments_filters_one_page:
  "calls (searchComments api toLowerCase newDate issueNumber options) =
     [IssuesListComments issueNumber (min (with_default 100 (cso_limit options)) 100)]
   \<and> (api issueNumber (min (with_default 100 (cso_limit options)) 100) = Inl e
      \<longrightarrow> result (searchComments api toLowerCase newDate issueNumber options) = Inl e)
   \<and> (0 \<le> with_default 100 (cso_limit options) \<and>
      api issueNumber (min (with_default 100 (cso_limit options)) 100) = Inr allComments
      \<longrightarrow> result (searchComments api toLowerCase newDate issueNumber options) =
            Inr (take (nat (with_default 100 (cso_limit options)))
                   (filter (comment_created_before newDate (cso_createdBefore options))
                      (filter (comment_created_after newDate (cso_createdAfter options))
                         (filter (comment_by_author (cso_author options))
                            (filter (comment_body_contains toLowerCase
                                       (cso_bodyContains options))
                               allComments))))))
   \<and> (comment_body_contains toLowerCase (Some t) c \<longleftrightarrow>
        t = [] \<or>
        (\<exists>b p q. comment_body c = Some b \<and> toLowerCase b = p @ toLowerCase t @ q))
   \<and> (t \<noteq> [] \<and> t' \<noteq> [] \<and> toLowerCase t = toLowerCase t'
      \<longrightarrow> searchComments api toLowerCase newDate issueNumber
            (options\<lparr>cso_bodyContains := Some t\<rparr>) =
          searchComments api toLowerCase newDate issueNumber
            (options\<lparr>cso_bodyContains := Some t'\<rparr>))
   \<and> (toLowerCase b = toLowerCase b'
      \<longrightarrow> comment_body_contains toLowerCase bodyContains (c\<lparr>comment_body := Some b\<rparr>) =
          comment_body_contains toLowerCase bodyContains (c\<lparr>comment_body := Some b'\<rparr>))
   \<and> (js_includes u v \<longleftrightarrow> (\<exists>p q. u = p @ v @ q))"
proof (intro conjI impI; (elim conjE)?)
  show "calls (searchComments api toLowerCase newDate issueNumber options) =
     [IssuesListComments issueNumber (min (with_default 100 (cso_limit options)) 100)]"
    by (simp add: searchComments_def Let_def split: sum.splits)
  show "comment_body_contains toLowerCase (Some t) c \<longleftrightarrow>
        t = [] \<or>
        (\<exists>b p q. comment_body c = Some b \<and> toLowerCase b = p @ toLowerCase t @ q)"
    by (rule comment_body_contains_iff)
  show "js_includes u v \<longleftrightarrow> (\<exists>p q. u = p @ v @ q)"
    by (rule js_includes_iff)
next
  assume "api issueNumber (min (with_default 100 (cso_limit options)) 100) = Inl e"
  then show "result (searchComments api toLowerCase newDate issueNumber options) = Inl e"
    by (simp add: searchComments_def Let_def)
next
  assume "0 \<le> with_default 100 (cso_limit options)"
    and "api issueNumber (min (with_default 100 (cso_limit options)) 100) = Inr allComments"
  then show "result (searchComments api toLowerCase newDate issueNumber options) =
            Inr (take (nat (with_default 100 (cso_limit options)))
                   (filter (comment_created_before newDate (cso_createdBefore options))
                      (filter (comment_created_after newDate (cso_createdAfter options))
                         (filter (comment_by_author (cso_author options))
                            (filter (comment_body_contains toLowerCase
                                       (cso_bodyContains options))
                               allComments)))))"
    by (rule searchComments_result)
next
  assume "t \<noteq> []" "t' \<noteq> []" "toLowerCase t = toLowerCase t'"
  then show "searchComments api toLowerCase newDate issueNumber
            (options\<lparr>cso_bodyContains := Some t\<rparr>) =
          searchComments api toLowerCase newDate issueNumber
            (options\<lparr>cso_bodyContains := Some t'\<rparr>)"
    by (simp add: searchComments_def Let_def cong: sum.case_cong option.case_cong)
next
  assume "toLowerCase b = toLowerCase b'"
  then show "comment_body_contains toLowerCase bodyContains (c\<lparr>comment_body := Some b\<rparr>) =
          comment_body_contains toLowerCase bodyContains (c\<lparr>comment_body := Some b'\<rparr>)"
    by (simp add: comment_body_contains_def cong: option.case_cong)
qed

lemma search_bot_errors_sel:
  "cso_bodyContains search_bot_errors = Some (units ''ERROR'')"
  "cso_author search_bot_errors = Some (units ''bot'')"
  "cso_createdAfter search_bot_errors = Some (ValidDate 1704067200000)"
  "cso_createdBefore search_bot_errors = None"
  "cso_limit search_bot_errors = Some 10"
  by (simp_all add: search_bot_errors_def)

lemma search_e_acute_sel:
  "cso_bodyContains search_e_acute = Some [233]"
  "cso_author search_e_acute = None"
  "cso_createdAfter search_e_acute = None"
  "cso_createdBefore search_e_acute = None"
  "cso_limit search_e_acute = None"
  by (simp_all add: search_e_acute_def)

theorem searchComments_filters_one_page_witness:
  "calls (searchComments eight_comments lower_units date_example 123 search_bot_errors) =
     [IssuesListComments 123 10]
   \<and> result (searchComments eight_comments lower_units date_example 123 search_bot_errors) =
     Inr [comment_example (Some (units ''Build error in step 1'')) ''bot'' ''2024-02-01'',
          comment_example (Some (units ''Error: timeout'')) ''bot'' ''2024-03-01'']
   \<and> result (searchComments eight_comments lower_units date_example 123 search_e_acute) =
     Inr [comment_example (Some (units ''CAF'' @ [201] @ units '' closed'')) ''alice''
            ''2024-03-01'']
   \<and> lower_units (units ''ERROR'') = lower_units (units ''error'')
   \<and> searchComments eight_comments lower_units date_example 123
       (search_bot_errors\<lparr>cso_bodyContains := Some (units ''ERROR'')\<rparr>) =
     searchComments eight_comments lower_units date_example 123
       (search_bot_errors\<lparr>cso_bodyContains := Some (units ''error'')\<rparr>)"
  using
    searchComments_filters_one_page
      [where api = eight_comments and toLowerCase = lower_units and newDate = date_example
         and issueNumber = 123 and options = search_bot_errors
         and allComments = "projr (eight_comments 123 10)"
         and e = "JsError None []"
         and t = "units ''ERROR''" and t' = "units ''error''"
         and c = "comment_example None ''bot'' ''soon''"
         and b = "units ''Error''" and b' = "units ''ERROR''"
         and bodyContains = "Some (units ''error'')"
         and u = "units ''build error''" and v = "units ''error''"]
    searchComments_filters_one_page
      [where api = eight_comments and toLowerCase = lower_units and newDate = date_example
         and issueNumber = 123 and options = search_e_acute
         and allComments = "projr (eight_comments 123 100)"
         and e = "JsError None []"
         and t = "[233]" and t' = "[201]"
         and c = "comment_example None ''bot'' ''soon''"
         and b = "[201]" and b' = "[233]"
         and bodyContains = "Some [233]"
         and u = "[233::nat]" and v = "[233::nat]"]
  by (simp add: search_bot_errors_sel search_e_acute_sel with_default_def eight_comments_def
        comment_example_def comment_body_contains_def comment_by_author_def
        comment_created_after_def comment_created_before_def date_example_def
        lower_units_def units_def)

section \<open>Claims about label removal\<close>

lemma removeLabels_loop_all_tolerated:
  "list_all (\<lambda>(i, l). removal_tolerated (api i pullNumber l)) (enumerate k labels) \<Longrightarrow>
   removeLabels_loop api pullNumber k labels =
     \<lparr>calls = map (IssuesRemoveLabel pullNumber) labels,
      infos = map (\<lambda>(i, l). LabelNotPresentOnPR l pullNumber)
                (filter (\<lambda>(i, l). api i pullNumber l \<noteq> None) (enumerate k labels)),
      result = Inr ()\<rparr>"
proof (induction labels arbitrary: k)
  case Nil
  show ?case by simp
next
  case (Cons l labels)
  from Cons.prems have rest:
    "list_all (\<lambda>(i, l). removal_tolerated (api i pullNumber l)) (enumerate (Suc k) labels)"
    by simp
  from Cons.prems have "removal_tolerated (api k pullNumber l)" by simp
  then show ?case
    by (auto simp: Cons.IH[OF rest] removal_tolerated_def Let_def split: option.splits)
qed

lemma removeLabels_loop_aborts:
  "n < length labels \<Longrightarrow>
   api (k + n) pullNumber (labels ! n) = Some e \<Longrightarrow>
   err_status e \<noteq> Some 404 \<Longrightarrow>
   list_all (\<lambda>(i, l). removal_tolerated (api i pullNumber l)) (take n (enumerate k labels)) \<Longrightarrow>
   removeLabels_loop api pullNumber k labels =
     \<lparr>calls = map (IssuesRemoveLabel pullNumber) (take (Suc n) labels),
      infos = map (\<lambda>(i, l). LabelNotPresentOnPR l pullNumber)
                (filter (\<lambda>(i, l). api i pullNumber l \<noteq> None) (take n (enumerate k labels))),
      result = Inl e\<rparr>"
proof (induction labels arbitrary: k n)
  case Nil
  then show ?case by simp
next
  case (Cons l labels)
  show ?case
  proof (cases n)
    case 0
    with Cons.prems show ?thesis by simp
  next
    case (Suc n')
    from Cons.prems Suc have first: "removal_tolerated (api k pullNumber l)" by simp
    from Cons.prems Suc have
      "removeLabels_loop api pullNumber (Suc k) labels =
         \<lparr>calls = map (IssuesRemoveLabel pullNumber) (take (Suc n') labels),
          infos = map (\<lambda>(i, l). LabelNotPresentOnPR l pullNumber)
                    (filter (\<lambda>(i, l). api i pullNumber l \<noteq> None)
                       (take n' (enumerate (Suc k) labels))),
          result = Inl e\<rparr>"
      by (intro Cons.IH) simp_all
    with first Suc show ?thesis
      by (auto simp: removal_tolerated_def Let_def split: option.splits)
  qed
qed

text \<open>
  C5. \<^verbatim>\<open>removeLabelsFromPullRequest\<close> with at least one label sends the removal
  requests in the order of the labels. As long as every answer is a success or a failure
  with status 404, it goes on: when all answers are of this kind, all labels have been
  requested, each 404 has been logged as an informational message naming its label, and
  the call returns. The first failure with another status (or none) ends the loop: the
  later labels are not requested and the call throws that same error.
\<close>

theorem removeLabels_tolerates_404_only:
  "(labels \<noteq> [] \<and>
      list_all (\<lambda>(i, l). removal_tolerated (api i pullNumber l)) (enumerate 0 labels)
      \<longrightarrow> removeLabelsFromPullRequest api pullNumber labels =
            \<lparr>calls = map (IssuesRemoveLabel pullNumber) labels,
             infos = RemovingLabelsFromPR pullNumber labels #
                     map (\<lambda>(i, l). LabelNotPresentOnPR l pullNumber)
                       (filter (\<lambda>(i, l). api i pullNumber l \<noteq> None) (enumerate 0 labels)),
             result = Inr ()\<rparr>)
   \<and> (n < length labels \<and> api n pullNumber (labels ! n) = Some e \<and>
      err_status e \<noteq> Some 404 \<and>
      list_all (\<lambda>(i, l). removal_tolerated (api i pullNumber l))
        (take n (enumerate 0 labels))
      \<longrightarrow> removeLabelsFromPullRequest api pullNumber labels =
            \<lparr>calls = map (IssuesRemoveLabel pullNumber) (take (Suc n) labels),
             infos = RemovingLabelsFromPR pullNumber labels #
                     map (\<lambda>(i, l). LabelNotPresentOnPR l pullNumber)
                       (filter (\<lambda>(i, l). api i pullNumber l \<noteq> None)
                          (take n (enumerate 0 labels))),
             result = Inl e\<rparr>)"
proof (intro conjI impI; elim conjE)
  assume "labels \<noteq> []"
    and "list_all (\<lambda>(i, l). removal_tolerated (api i pullNumber l)) (enumerate 0 labels)"
  then show "removeLabelsFromPullRequest api pullNumber labels =
            \<lparr>calls = map (IssuesRemoveLabel pullNumber) labels,
             infos = RemovingLabelsFromPR pullNumber labels #
                     map (\<lambda>(i, l). LabelNotPresentOnPR l pullNumber)
                       (filter (\<lambda>(i, l). api i pullNumber l \<noteq> None) (enumerate 0 labels)),
             result = Inr ()\<rparr>"
    by (simp add: removeLabelsFromPullRequest_def removeLabels_loop_all_tolerated Let_def)
next
  assume n: "n < length labels"
    and "api n pullNumber (labels ! n) = Some e" "err_status e \<noteq> Some 404"
      "list_all (\<lambda>(i, l). removal_tolerated (api i pullNumber l))
         (take n (enumerate 0 labels))"
  then have "removeLabels_loop api pullNumber 0 labels =
     \<lparr>calls = map (IssuesRemoveLabel pullNumber) (take (Suc n) labels),
      infos = map (\<lambda>(i, l). LabelNotPresentOnPR l pullNumber)
                (filter (\<lambda>(i, l). api i pullNumber l \<noteq> None) (take n (enumerate 0 labels))),
      result = Inl e\<rparr>"
    by (intro removeLabels_loop_aborts) simp_all
  moreover from n have "labels \<noteq> []" by auto
  ultimately show "removeLabelsFromPullRequest api pullNumber labels =
            \<lparr>calls = map (IssuesRemoveLabel pullNumber) (take (Suc n) labels),
             infos = RemovingLabelsFromPR pullNumber labels #
                     map (\<lambda>(i, l). LabelNotPresentOnPR l pullNumber)
                       (filter (\<lambda>(i, l). api i pullNumber l \<noteq> None)
                          (take n (enumerate 0 labels))),
             result = Inl e\<rparr>"
    by (simp add: removeLabelsFromPullRequest_def Let_def)
qed

theorem removeLabels_tolerates_404_only_witness:
  "removeLabelsFromPullRequest label_removal_example 123 [''existing'', ''nonexistent''] =
     \<lparr>calls = [IssuesRemoveLabel 123 ''existing'', IssuesRemoveLabel 123 ''nonexistent''],
      infos = [RemovingLabelsFromPR 123 [''existing'', ''nonexistent''],
               LabelNotPresentOnPR ''nonexistent'' 123],
      result = Inr ()\<rparr>
   \<and> removeLabelsFromPullRequest label_removal_example 123
       [''nonexistent'', ''locked'', ''other''] =
     \<lparr>calls = [IssuesRemoveLabel 123 ''nonexistent'', IssuesRemoveLabel 123 ''locked''],
      infos = [RemovingLabelsFromPR 123 [''nonexistent'', ''locked'', ''other''],
               LabelNotPresentOnPR ''nonexistent'' 123],
      result = Inl (JsError (Some 403) ''Forbidden'')\<rparr>"
  using
    removeLabels_tolerates_404_only
      [where api = label_removal_example and pullNumber = 123
         and labels = "[''existing'', ''nonexistent'']" and n = 2]
    removeLabels_tolerates_404_only
      [where api = label_removal_example and pullNumber = 123
         and labels = "[''nonexistent'', ''locked'', ''other'']" and n = 1
         and e = "JsError (Some 403) ''Forbidden''"]
  by (simp add: label_removal_example_def removal_tolerated_def)

end
